theory Spec2Isabelle
  imports Main "HOL-Library.Multiset" "HOL-Library.AList"
begin

section \<open>Feature structures (aba.py, nform.py, vform.py)\<close>

text \<open>
  A feature value is a Python \<open>frozenset\<close> of strings.  The two concrete subclasses of
  \<open>MorphForm\<close> are \<open>NForm\<close> (attributes number, case, gender) and \<open>VForm\<close>
  (attributes number, person).  Python's \<open>type(x)\<close> is the constructor of the datatype.
\<close>

type_synonym fvalue = "string set"

datatype form =
    NForm (nnumber: fvalue) (ncase: fvalue) (ngender: fvalue)
  | VForm (vnumber: fvalue) (vperson: fvalue)

datatype formType = NFormT | VFormT

fun typeOf :: "form \<Rightarrow> formType" where
  "typeOf (NForm n c g) = NFormT"
| "typeOf (VForm n p) = VFormT"

text \<open>The exceptions the source raises (all are plain \<open>Exception\<close> with a message), and
  the one that the interpreter itself can raise in the modelled code.  The last
  constructor stands for a constructed object with None as an attribute.\<close>

datatype error =
    TooManyArgs            \<comment> \<open>"... args passed to NForm, which accepts at most 3"\<close>
  | InvalidValue           \<comment> \<open>"Invalid value(s) passed to NForm"\<close>
  | MoreThanOneValue       \<comment> \<open>"More than one value for a feature passed to NForm"\<close>
  | NotSameClass           \<comment> \<open>"Containment is only defined between objects of the same class."\<close>
  | PyTypeError            \<comment> \<open>\<open>x in s\<close> for a string \<open>s\<close> and a non-string \<open>x\<close>\<close>
  | NoneAttribute          \<comment> \<open>no exception: \<open>dict.get\<close> gave None for an attribute\<close>

text \<open>\<open>valuesList\<close> of nform.py (line 100) and vform.py (line 81).\<close>

fun valuesList :: "form \<Rightarrow> fvalue list" where
  "valuesList (NForm n c g) = [n, c, g]"
| "valuesList (VForm n p) = [n, p]"

definition getValues :: "form \<Rightarrow> fvalue list" where
  "getValues self = valuesList self"

text \<open>\<open>MorphForm.__eq__\<close> (aba.py line 98): the comparison of the value lists when the
  types agree, and \<open>None\<close> (no \<open>return\<close> is reached) otherwise.\<close>

definition form_eq :: "form \<Rightarrow> form \<Rightarrow> bool option" where
  "form_eq self other =
     (if typeOf self = typeOf other then Some (getValues self = getValues other) else None)"

text \<open>Python's truth value of the result of \<open>==\<close>: \<open>None\<close> is falsy.\<close>

fun truthy :: "bool option \<Rightarrow> bool" where
  "truthy None = False"
| "truthy (Some b) = b"

text \<open>\<open>MorphForm.contains\<close> (aba.py lines 75-96).  The \<open>elif\<close> compares
  \<open>type(self)\<close> with \<open>type(self)\<close>, as the source does.  The \<open>for\<close> loop over the
  zipped value lists returns False at the first slot that is not a superset.\<close>

definition contains :: "form \<Rightarrow> form \<Rightarrow> error + bool" where
  "contains self other =
     (if truthy (form_eq self other) then Inr False
      else if \<not> (typeOf self = typeOf self) then Inl NotSameClass
      else Inr (list_all (\<lambda>t. snd t \<subseteq> fst t) (zip (getValues self) (getValues other))))"

text \<open>A call of \<open>contains\<close> in a boolean position of the source.  By lemma
  \<open>contains_never_raises\<close> below the call always returns, so nothing is lost by reading
  the result as a boolean.\<close>

definition containsB :: "form \<Rightarrow> form \<Rightarrow> bool" where
  "containsB self other = (contains self other = Inr True)"

text \<open>\<open>MorphForm.__lt__\<close> (aba.py line 105).\<close>

definition form_lt :: "form \<Rightarrow> form \<Rightarrow> bool" where
  "form_lt self other = containsB other self"

text \<open>\<open>MorphForm.containment\<close> (aba.py line 116).\<close>

definition containment :: "form \<Rightarrow> form \<Rightarrow> bool" where
  "containment self other = (containsB self other \<or> containsB other self)"

subsection \<open>Construction\<close>

text \<open>\<open>wellFormedArgs(group_vals, *argv)\<close> (aba.py lines 49-59) is called with two
  shapes of arguments.  An element of \<open>argv\<close> is a string or a tuple of strings; an element
  of \<open>group_vals\<close> is a set of strings or a string.\<close>

datatype pyarg = AStr string | ATuple "string list"

datatype pygroup = GSet "string set" | GStr string

fun isSubstr :: "string \<Rightarrow> string \<Rightarrow> bool" where
  "isSubstr a [] = (a = [])"
| "isSubstr a (c # s) = (take (length a) (c # s) = a \<or> isSubstr a s)"

text \<open>Python's \<open>a in val_list\<close>: membership in a set (a tuple is never equal to a string),
  the substring test on a string, and a TypeError for a tuple in a string.\<close>

fun pyIn :: "pyarg \<Rightarrow> pygroup \<Rightarrow> error + bool" where
  "pyIn (AStr a) (GSet S) = Inr (a \<in> S)"
| "pyIn (ATuple t) (GSet S) = Inr False"
| "pyIn (AStr a) (GStr s) = Inr (isSubstr a s)"
| "pyIn (ATuple t) (GStr s) = Inl PyTypeError"

text \<open>The condition of the innermost \<open>if\<close>, evaluated left to right with short-circuit.\<close>

definition conflict :: "pyarg \<Rightarrow> pyarg \<Rightarrow> pygroup \<Rightarrow> error + bool" where
  "conflict a b val_list =
     (if a \<noteq> AStr ''zero'' \<and> b \<noteq> AStr ''zero'' \<and> a \<noteq> b then
        (case pyIn a val_list of
           Inl e \<Rightarrow> Inl e
         | Inr False \<Rightarrow> Inr False
         | Inr True \<Rightarrow> pyIn b val_list)
      else Inr False)"

text \<open>The three nested loops visit the triples \<open>(a, b, val_list)\<close> in this order and
  return False at the first conflict.\<close>

fun scanTriples :: "(pyarg \<times> pyarg \<times> pygroup) list \<Rightarrow> error + bool" where
  "scanTriples [] = Inr True"
| "scanTriples ((a, b, v) # ts) =
     (case conflict a b v of
        Inl e \<Rightarrow> Inl e
      | Inr True \<Rightarrow> Inr False
      | Inr False \<Rightarrow> scanTriples ts)"

definition wellFormedArgs :: "pygroup list \<Rightarrow> pyarg list \<Rightarrow> error + bool" where
  "wellFormedArgs group_vals argv =
     (if length argv = 1 then Inr True
      else scanTriples
             (concat (map (\<lambda>a. concat (map (\<lambda>b. map (\<lambda>v. (a, b, v)) group_vals) argv)) argv)))"

text \<open>Class attributes of \<open>NForm\<close> (nform.py lines 13-43).  A dict is an association
  list read with \<open>map_of\<close> (\<open>dict.get\<close>); the value sets of \<open>feature_val_dict\<close> are
  listed in the order of the source text (Python does not fix the order in which a set
  is iterated, so the order of the generated forms is one of the possible ones).\<close>

definition NForm_string_to_val_dict :: "(string \<times> fvalue) list" where
  "NForm_string_to_val_dict =
     [(''zero'', {}),
      (''sg'', {''sg''}),
      (''pl'', {''sg'', ''pl''}),
      (''nom'', {''nom''}),
      (''acc'', {''nom'', ''acc''}),
      (''dat'', {''nom'', ''acc'', ''dat''}),
      (''neu'', {''neu''}),
      (''mas'', {''neu'', ''mas''}),
      (''fem'', {''neu'', ''mas'', ''fem''})]"

definition NForm_all_values :: "string list" where
  "NForm_all_values =
     [''zero'', ''sg'', ''pl'', ''nom'', ''acc'', ''dat'', ''neu'', ''mas'', ''fem'']"

definition NForm_feature_val_dict :: "(string \<times> string list) list" where
  "NForm_feature_val_dict =
     [(''Number'', [''zero'', ''sg'', ''pl'']),
      (''Case'', [''zero'', ''nom'', ''acc'', ''dat'']),
      (''Gender'', [''zero'', ''neu'', ''mas'', ''fem''])]"

definition NForm_grouped_values :: "string set list" where
  "NForm_grouped_values = map (\<lambda>kv. set (snd kv)) NForm_feature_val_dict"

text \<open>\<open>feat_val_dic.get(k)\<close> for the keys the constructors use.\<close>

definition valuesOf :: "(string \<times> string list) list \<Rightarrow> string \<Rightarrow> string set" where
  "valuesOf dic k = (case map_of dic k of None \<Rightarrow> {} | Some vs \<Rightarrow> set vs)"

text \<open>The attribute assigned from a list of selected tokens: \<open>str_val_dic.get(xs[0])\<close>
  when the list is not empty, \<open>frozenset()\<close> otherwise.  \<open>dict.get\<close> gives None for a
  missing key.\<close>

definition slotValue :: "(string \<times> fvalue) list \<Rightarrow> string list \<Rightarrow> fvalue option" where
  "slotValue str_val_dic xs =
     (case xs of [] \<Rightarrow> Some {} | v # _ \<Rightarrow> map_of str_val_dic v)"

text \<open>\<open>NForm.__init__\<close> (nform.py lines 45-78).  The well-formedness check is called
  with the tuple \<open>argv\<close> as its single variadic argument.  The last branch would store
  None in an attribute; it cannot be reached, since the selected tokens are keys of the
  dict.\<close>

definition NForm_init :: "string list \<Rightarrow> error + form" where
  "NForm_init argv =
     (if length argv > 3 then Inl TooManyArgs
      else if \<not> list_all (\<lambda>v. v \<in> set NForm_all_values) argv then Inl InvalidValue
      else (case wellFormedArgs (map GSet NForm_grouped_values) [ATuple argv] of
              Inl e \<Rightarrow> Inl e
            | Inr False \<Rightarrow> Inl MoreThanOneValue
            | Inr True \<Rightarrow>
               (let numb = filter (\<lambda>v. v \<in> valuesOf NForm_feature_val_dict ''Number''
                                         \<and> v \<noteq> ''zero'') argv;
                    case' = filter (\<lambda>v. v \<in> valuesOf NForm_feature_val_dict ''Case''
                                         \<and> v \<noteq> ''zero'') argv;
                    gend = filter (\<lambda>v. v \<in> valuesOf NForm_feature_val_dict ''Gender''
                                         \<and> v \<noteq> ''zero'') argv
                in (case (slotValue NForm_string_to_val_dict numb,
                          slotValue NForm_string_to_val_dict case',
                          slotValue NForm_string_to_val_dict gend) of
                      (Some n, Some c, Some g) \<Rightarrow> Inr (NForm n c g)
                    | _ \<Rightarrow> Inl NoneAttribute))))"

text \<open>Class attributes of \<open>VForm\<close> (vform.py lines 13-34).\<close>

definition VForm_string_to_val_dict :: "(string \<times> fvalue) list" where
  "VForm_string_to_val_dict =
     [(''zero'', {}),
      (''part'', {''part''}),
      (''auth'', {''part'', ''auth''}),
      (''addr'', {''part'', ''addr''}),
      (''pl'', {''pl''})]"

definition VForm_all_values :: "string list" where
  "VForm_all_values = [''zero'', ''pl'', ''part'', ''auth'', ''addr'']"

definition VForm_feature_val_dict :: "(string \<times> string list) list" where
  "VForm_feature_val_dict =
     [(''Person'', [''zero'', ''part'', ''auth'', ''addr'']),
      (''Number'', [''zero'', ''pl''])]"

text \<open>\<open>VForm.__init__\<close> (vform.py lines 36-62).  The well-formedness check is called as
  \<open>wellFormedArgs(argv)\<close>: the tuple is bound to \<open>group_vals\<close> and the variadic
  arguments are empty.\<close>

definition VForm_init :: "string list \<Rightarrow> error + form" where
  "VForm_init argv =
     (if length argv > 2 then Inl TooManyArgs
      else if \<not> list_all (\<lambda>v. v \<in> set VForm_all_values) argv then Inl InvalidValue
      else (case wellFormedArgs (map GStr argv) [] of
              Inl e \<Rightarrow> Inl e
            | Inr False \<Rightarrow> Inl MoreThanOneValue
            | Inr True \<Rightarrow>
               (let numb = filter (\<lambda>v. v \<in> valuesOf VForm_feature_val_dict ''Number''
                                         \<and> v \<noteq> ''zero'') argv;
                    pers = filter (\<lambda>v. v \<in> valuesOf VForm_feature_val_dict ''Person''
                                         \<and> v \<noteq> ''zero'') argv
                in (case (slotValue VForm_string_to_val_dict numb,
                          slotValue VForm_string_to_val_dict pers) of
                      (Some n, Some p) \<Rightarrow> Inr (VForm n p)
                    | _ \<Rightarrow> Inl NoneAttribute))))"

text \<open>The two constructors behind \<open>type_of_form(*f)\<close>.\<close>

fun construct :: "formType \<Rightarrow> string list \<Rightarrow> error + form" where
  "construct NFormT argv = NForm_init argv"
| "construct VFormT argv = VForm_init argv"

fun feature_val_dict :: "formType \<Rightarrow> (string \<times> string list) list" where
  "feature_val_dict NFormT = NForm_feature_val_dict"
| "feature_val_dict VFormT = VForm_feature_val_dict"

text \<open>\<open>__getitem__\<close> (nform.py line 87, vform.py line 70): None for an unknown key.\<close>

fun getitem :: "form \<Rightarrow> string \<Rightarrow> fvalue option" where
  "getitem (NForm n c g) key =
     (if key = ''Case'' then Some c
      else if key = ''Number'' then Some n
      else if key = ''Gender'' then Some g
      else None)"
| "getitem (VForm n p) key =
     (if key = ''Number'' then Some n
      else if key = ''Person'' then Some p
      else None)"

text \<open>\<open>__repr__\<close> (nform.py line 80, vform.py line 64).  A string is the UTF-8 byte
  sequence of the Python string; the first entry of each \<open>val_to_string_dict\<close> is the
  byte sequence the source file holds between the quotes.  \<open>dict.get\<close> of a missing key
  is None, which an f-string renders as \<open>None\<close>.\<close>

definition NForm_val_to_string_dict :: "(fvalue \<times> string) list" where
  "NForm_val_to_string_dict =
     [({}, [CHR 0xE2, CHR 0x88, CHR 0x85]),
      ({''sg''}, ''sg''),
      ({''sg'', ''pl''}, ''pl''),
      ({''nom''}, ''nom''),
      ({''nom'', ''acc''}, ''acc''),
      ({''nom'', ''acc'', ''dat''}, ''dat''),
      ({''neu'', ''mas'', ''fem''}, ''fem''),
      ({''neu'', ''mas''}, ''mas''),
      ({''neu''}, ''neu'')]"

definition VForm_val_to_string_dict :: "(fvalue \<times> string) list" where
  "VForm_val_to_string_dict =
     [({}, [CHR 0xC3, CHR 0xA2, CHR 0xCB, CHR 0x86, CHR 0xE2, CHR 0x80, CHR 0xA6]),
      ({''pl''}, ''pl''),
      ({''part''}, ''part''),
      ({''part'', ''auth''}, ''auth''),
      ({''part'', ''addr''}, ''addr'')]"

definition fmtGet :: "(fvalue \<times> string) list \<Rightarrow> fvalue \<Rightarrow> string" where
  "fmtGet dic v = (case map_of dic v of None \<Rightarrow> ''None'' | Some s \<Rightarrow> s)"

fun repr :: "form \<Rightarrow> string" where
  "repr (NForm n c g) =
     fmtGet NForm_val_to_string_dict n @ ''.'' @ fmtGet NForm_val_to_string_dict c
       @ ''.'' @ fmtGet NForm_val_to_string_dict g"
| "repr (VForm n p) =
     fmtGet VForm_val_to_string_dict n @ ''.'' @ fmtGet VForm_val_to_string_dict p"

text \<open>\<open>str\<close> of a Python list of forms: the \<open>repr\<close> of the elements, joined by a comma
  and a space, in brackets.\<close>

fun joinComma :: "string list \<Rightarrow> string" where
  "joinComma [] = []"
| "joinComma [s] = s"
| "joinComma (s # t # ss) = s @ '', '' @ joinComma (t # ss)"

definition strList :: "form list \<Rightarrow> string" where
  "strList v = ''['' @ joinComma (map repr v) @ '']''"

subsection \<open>Immediate containment\<close>

text \<open>\<open>special_imm_contains_dict\<close> (nform.py line 36, vform.py line 33) and
  \<open>specialImmediateContainsValue\<close> (nform.py line 112, vform.py line 90).\<close>

fun special_imm_contains_dict :: "formType \<Rightarrow> (fvalue \<times> fvalue list) list" where
  "special_imm_contains_dict NFormT = []"
| "special_imm_contains_dict VFormT =
     [({''part'', ''auth''}, [{}]), ({''part'', ''addr''}, [{}])]"

definition specialImmediateContainsValue :: "form \<Rightarrow> fvalue \<Rightarrow> fvalue list" where
  "specialImmediateContainsValue self v =
     (let dic = special_imm_contains_dict (typeOf self)
      in if length dic = 0 then []
         else (case map_of dic v of Some vs \<Rightarrow> vs | None \<Rightarrow> []))"

definition getSpecialImmediateContainsValue :: "form \<Rightarrow> fvalue \<Rightarrow> fvalue list" where
  "getSpecialImmediateContainsValue self v = specialImmediateContainsValue self v"

text \<open>\<open>nonImmediateContains\<close> (aba.py lines 128-155): \<open>diffs\<close> is the sum, over the
  zipped value lists, of 1 for a registered special pair and of the size of the set
  difference otherwise.\<close>

definition diffs :: "form \<Rightarrow> form \<Rightarrow> nat" where
  "diffs self other =
     sum_list (map (\<lambda>t. if snd t \<in> set (getSpecialImmediateContainsValue self (fst t))
                         then 1 else card (fst t - snd t))
                   (zip (getValues self) (getValues other)))"

definition nonImmediateContains :: "form \<Rightarrow> form \<Rightarrow> bool" where
  "nonImmediateContains self other =
     (if \<not> containsB self other then False else diffs self other > 1)"

definition nonImmediateContainment :: "form \<Rightarrow> form \<Rightarrow> bool" where
  "nonImmediateContainment self other =
     (nonImmediateContains self other \<or> nonImmediateContains other self)"

definition immediateContains :: "form \<Rightarrow> form \<Rightarrow> bool" where
  "immediateContains self other =
     (containsB self other \<and> \<not> nonImmediateContains self other)"

definition immediateContainment :: "form \<Rightarrow> form \<Rightarrow> bool" where
  "immediateContainment self other =
     (immediateContains self other \<or> immediateContains other self)"

definition isBetween :: "form \<Rightarrow> form \<Rightarrow> form \<Rightarrow> bool" where
  "isBetween self form1 form2 =
     ((containsB self form1 \<and> containsB form2 self)
      \<or> (containsB self form2 \<and> containsB form1 self))"

section \<open>Paths and bad cells (aba.py lines 179-298)\<close>

text \<open>Python's \<open>min\<close> and \<open>max\<close> of a non-empty list keep the first element and
  replace it by a later item when \<open>item < best\<close> (for \<open>min\<close>) or \<open>item > best\<close> (for
  \<open>max\<close>; \<open>>\<close> is the reflected \<open>__lt__\<close>).\<close>

definition pyMin :: "form \<Rightarrow> form list \<Rightarrow> form" where
  "pyMin x xs = fold (\<lambda>item best. if form_lt item best then item else best) xs x"

definition pyMax :: "form \<Rightarrow> form list \<Rightarrow> form" where
  "pyMax x xs = fold (\<lambda>item best. if form_lt best item then item else best) xs x"

text \<open>\<open>getBottom\<close> and \<open>getTop\<close> (aba.py lines 179-186): the elements equal to the
  minimum (maximum).  On the empty list the comprehension never evaluates \<open>min\<close>.\<close>

fun getBottom :: "form list \<Rightarrow> form list" where
  "getBottom [] = []"
| "getBottom (x # xs) = filter (\<lambda>y. truthy (form_eq y (pyMin x xs))) (x # xs)"

fun getTop :: "form list \<Rightarrow> form list" where
  "getTop [] = []"
| "getTop (x # xs) = filter (\<lambda>y. truthy (form_eq y (pyMax x xs))) (x # xs)"

text \<open>An element of the list \<open>getPaths\<close> returns is a form or a list of forms.\<close>

datatype pathItem = AForm form | APath "form list"

text \<open>\<open>getExtensions\<close> (aba.py lines 238-247).  It is only called on the non-empty
  paths the loop builds, so \<open>path[-1]\<close> is \<open>last path\<close>.\<close>

definition getExtensions :: "form list \<Rightarrow> form \<Rightarrow> form list \<Rightarrow> form list list" where
  "getExtensions path top_form forms =
     map (\<lambda>e. path @ [e])
         (filter (\<lambda>f. immediateContains f (last path) \<and> containsB top_form f) forms)"

definition extendAll :: "form \<Rightarrow> form list \<Rightarrow> form list list \<Rightarrow> form list list" where
  "extendAll top_form domain paths_traversed =
     concat (map (\<lambda>p. if containsB top_form (last p) then getExtensions p top_form domain else [])
                 paths_traversed)"

text \<open>The \<open>while True\<close> loop (aba.py lines 250-261).  None is a loop that never
  leaves.\<close>

partial_function (option) pathsLoop ::
  "form \<Rightarrow> form list \<Rightarrow> form list list \<Rightarrow> form list list option" where
  "pathsLoop top_form domain paths_traversed =
     (if extendAll top_form domain paths_traversed = paths_traversed
         \<or> length (extendAll top_form domain paths_traversed) = 0
      then Some paths_traversed
      else pathsLoop top_form domain (extendAll top_form domain paths_traversed))"

declare pathsLoop.simps [code]

text \<open>\<open>getPaths\<close> (aba.py lines 217-265).  \<open>list(set(...))\<close> removes duplicates; the
  order in which Python lists the set is not fixed by the language, \<open>remdups\<close> is one
  such order.  \<open>getBottom([form1, form2])[0]\<close> exists because the minimum of a list is one
  of its elements (lemma \<open>getBottom_two\<close>); the second branch of \<open>firstOf\<close> is
  therefore never taken.\<close>

definition firstOf :: "form list \<Rightarrow> form \<Rightarrow> form" where
  "firstOf xs d = (case xs of [] \<Rightarrow> d | x # _ \<Rightarrow> x)"

definition getPaths :: "form \<Rightarrow> form \<Rightarrow> form list \<Rightarrow> pathItem list option" where
  "getPaths form1 form2 list_of_forms =
     (if \<not> containment form1 form2 then Some []
      else
        (let domain = remdups (filter (\<lambda>f. isBetween f form1 form2) list_of_forms
                               @ [form1, form2]);
             bottom = firstOf (getBottom [form1, form2]) form1;
             top_form = firstOf (getTop [form1, form2]) form1
         in if immediateContainment form1 form2 then Some [AForm bottom, AForm top_form]
            else (case pathsLoop top_form domain [[bottom]] of
                    None \<Rightarrow> None
                  | Some paths_traversed \<Rightarrow>
                      if paths_traversed = [[bottom]] then Some []
                      else Some (map (\<lambda>p. APath (tl p)) paths_traversed))))"

text \<open>\<open>isBadCell\<close> (aba.py lines 268-284): the pairs are collected in the order of the
  two nested loops, then scanned until a pair without paths is found.\<close>

definition containment_pairs :: "form list \<Rightarrow> (form \<times> form) list" where
  "containment_pairs cell =
     concat (map (\<lambda>f. map (\<lambda>g. (f, g)) (filter (\<lambda>g. nonImmediateContains g f) cell)) cell)"

fun scanPairs :: "form list \<Rightarrow> (form \<times> form) list \<Rightarrow> bool option" where
  "scanPairs cell [] = Some False"
| "scanPairs cell (p # ps) =
     (case getPaths (fst p) (snd p) cell of
        None \<Rightarrow> None
      | Some paths \<Rightarrow> if length paths = 0 then Some True else scanPairs cell ps)"

definition isBadCell :: "form list \<Rightarrow> bool option" where
  "isBadCell cell = scanPairs cell (containment_pairs cell)"

text \<open>\<open>isAba\<close> (aba.py lines 287-298): \<open>is_aba\<close> starts as False; the loop assigns it at
  the first cell with more than one member and breaks.\<close>

fun isAba :: "form list list \<Rightarrow> bool option" where
  "isAba [] = Some False"
| "isAba (cell # rest) = (if length cell > 1 then isBadCell cell else isAba rest)"

section \<open>Constraints and Eval (aba.py lines 301-379)\<close>

definition DepSubroutine :: "fvalue \<Rightarrow> fvalue \<Rightarrow> int" where
  "DepSubroutine ur_value sr_value = int (card ((ur_value \<union> sr_value) - ur_value))"

definition MaxSubroutine :: "fvalue \<Rightarrow> fvalue \<Rightarrow> int" where
  "MaxSubroutine ur_value sr_value = int (card ((ur_value \<union> sr_value) - sr_value))"

text \<open>\<open>DepOrMax\<close> (aba.py lines 329-356).  The scoring callable is a function from the
  two values read with \<open>__getitem__\<close> to an integer.  The loop state is
  \<open>(best_so_far, winners)\<close>.\<close>

definition total_score ::
  "(fvalue option \<Rightarrow> fvalue option \<Rightarrow> int) \<Rightarrow> string list \<Rightarrow> form \<Rightarrow> form \<Rightarrow> int" where
  "total_score constr features ur frm =
     sum_list (map (\<lambda>i. constr (getitem ur i) (getitem frm i)) features)"

fun depOrMaxStep ::
  "(form \<Rightarrow> int) \<Rightarrow> form \<Rightarrow> int option \<times> form list \<Rightarrow> int option \<times> form list" where
  "depOrMaxStep score frm (None, winners) = (Some (score frm), winners @ [frm])"
| "depOrMaxStep score frm (Some best_so_far, winners) =
     (if score frm > best_so_far then (Some best_so_far, winners)
      else if score frm = best_so_far then (Some best_so_far, winners @ [frm])
      else (Some (score frm), [frm]))"

definition DepOrMax ::
  "(fvalue option \<Rightarrow> fvalue option \<Rightarrow> int) \<Rightarrow> string list \<Rightarrow> form \<Rightarrow> form list
     \<Rightarrow> form list" where
  "DepOrMax constr features ur candidates =
     snd (fold (depOrMaxStep (total_score constr features ur)) candidates (None, []))"

text \<open>A constraint is a callable from the underlying form and the candidates to the
  winners.  \<open>otEval\<close> (aba.py lines 366-379).\<close>

type_synonym constraint = "form \<Rightarrow> form list \<Rightarrow> form list"

fun otEval :: "constraint list \<Rightarrow> form \<Rightarrow> form list \<Rightarrow> form list" where
  "otEval [] ur_form candidates = candidates"
| "otEval (c # rank) ur_form candidates =
     (if length candidates > 1 then otEval rank ur_form (c ur_form candidates)
      else candidates)"

text \<open>The constraints of vform.py (lines 102-119); \<open>MaxNum\<close> and \<open>DepNum\<close> of
  nform.py (lines 124-136) are the same functions.  The subroutines take the two values
  read with \<open>__getitem__\<close>.  For a key the form does not know the value is None, on
  which the subroutines raise an AttributeError; no constraint below reaches that case
  on forms of the class it is written for, and \<open>onValues\<close> scores it 0.\<close>

definition onValues ::
  "(fvalue \<Rightarrow> fvalue \<Rightarrow> int) \<Rightarrow> fvalue option \<Rightarrow> fvalue option \<Rightarrow> int" where
  "onValues subroutine ur_val sr_val =
     (case (ur_val, sr_val) of
        (Some u, Some s) \<Rightarrow> subroutine u s
      | _ \<Rightarrow> 0)"

definition MaxNum :: constraint where
  "MaxNum ur sr = DepOrMax (onValues MaxSubroutine) [''Number''] ur sr"

definition DepNum :: constraint where
  "DepNum ur sr = DepOrMax (onValues DepSubroutine) [''Number''] ur sr"

definition MaxPers :: constraint where
  "MaxPers ur sr = DepOrMax (onValues MaxSubroutine) [''Person''] ur sr"

definition DepPers :: constraint where
  "DepPers ur sr = DepOrMax (onValues DepSubroutine) [''Person''] ur sr"

section \<open>Partitions and the search (aba.py lines 382-510)\<close>

text \<open>\<open>areSamePartitions\<close> (aba.py lines 382-389): a chained comparison
  \<open>a == b == 0\<close> is \<open>a == b and b == 0\<close>.\<close>

definition areSamePartitions :: "form list list \<Rightarrow> form list list \<Rightarrow> bool" where
  "areSamePartitions part1 part2 =
     (let s1 = set (map set part1); s2 = set (map set part2)
      in card (s1 - s2) = card (s2 - s1) \<and> card (s2 - s1) = 0)"

text \<open>\<open>getWinnerPartition\<close> (aba.py lines 392-413).  A dict is an association list in
  insertion order: assigning to a present key keeps its position.  \<open>sorted\<close> compares
  the pairs \<open>(form, string)\<close> with \<open>__lt__\<close> of the forms, which is not a total order;
  which permutation the builtin then returns is a matter of its implementation, so the
  sorting function is a parameter \<open>srt\<close>.\<close>

definition winnersDict ::
  "constraint list \<Rightarrow> form list \<Rightarrow> form list \<Rightarrow> (form \<times> form list) list" where
  "winnersDict rank ur_forms sr_forms =
     fold (\<lambda>ur winners. AList.update ur (otEval rank ur sr_forms) winners) ur_forms []"

definition defaultGet :: "(string \<times> form list) list \<Rightarrow> string \<Rightarrow> form list" where
  "defaultGet res val = (case map_of res val of None \<Rightarrow> [] | Some ks \<Rightarrow> ks)"

definition groupStep ::
  "form \<times> string \<Rightarrow> (string \<times> form list) list \<Rightarrow> (string \<times> form list) list" where
  "groupStep kv res = AList.update (snd kv) (defaultGet res (snd kv) @ [fst kv]) res"

definition getWinnerPartition ::
  "((form \<times> string) list \<Rightarrow> (form \<times> string) list) \<Rightarrow> constraint list \<Rightarrow> form list
     \<Rightarrow> form list \<Rightarrow> form list list" where
  "getWinnerPartition srt rank ur_forms sr_forms =
     (let winners = winnersDict rank ur_forms sr_forms;
          temp_dict = map (\<lambda>kv. (fst kv, strList (snd kv))) winners;
          res = fold groupStep (srt temp_dict) []
      in map snd res)"

text \<open>An insertion sort with \<open>__lt__\<close> on the forms, one sorting function that
  \<open>srt\<close> can be.\<close>

fun insertPair :: "form \<times> string \<Rightarrow> (form \<times> string) list \<Rightarrow> (form \<times> string) list" where
  "insertPair x [] = [x]"
| "insertPair x (y # ys) = (if form_lt (fst x) (fst y) then x # y # ys else y # insertPair x ys)"

definition insertionSorted :: "(form \<times> string) list \<Rightarrow> (form \<times> string) list" where
  "insertionSorted xs = foldr insertPair xs []"

text \<open>\<open>generateForms\<close> (aba.py lines 416-428), called with the list of excluded values
  as its only variadic argument; \<open>itertools.product\<close> is \<open>product_lists\<close>.\<close>

fun constructAll :: "formType \<Rightarrow> string list list \<Rightarrow> error + form list" where
  "constructAll ty [] = Inr []"
| "constructAll ty (a # args) =
     (case construct ty a of
        Inl e \<Rightarrow> Inl e
      | Inr f \<Rightarrow> (case constructAll ty args of Inl e \<Rightarrow> Inl e | Inr fs \<Rightarrow> Inr (f # fs)))"

definition generateForms :: "formType \<Rightarrow> string list \<Rightarrow> error + form list" where
  "generateForms type_of_form vals =
     (let all_args = product_lists (map snd (feature_val_dict type_of_form));
          args = (if length vals = 0 then all_args
                  else filter (\<lambda>a. card (set a \<inter> set vals) = 0) all_args)
      in constructAll type_of_form args)"

text \<open>\<open>itertools.combinations\<close>: the sublists of a given length, in the order of the
  positions.\<close>

fun combinations :: "'a list \<Rightarrow> nat \<Rightarrow> 'a list list" where
  "combinations xs 0 = [[]]"
| "combinations [] (Suc k) = []"
| "combinations (x # xs) (Suc k) = map (Cons x) (combinations xs k) @ combinations xs (Suc k)"

text \<open>\<open>findVocabularyRankingPairs\<close> (aba.py lines 431-510) without its printing and its
  optional report file.  A ranking is a tuple of named constraints;
  \<open>printRanking\<close> (line 359) is the tuple of their names.  A vocabulary is a tuple of
  forms and is passed on as the candidates; \<open>otEval\<close> returns it as it is when no
  constraint is applied, and then for every underlying form alike, so that reading it as
  a list does not change which underlying forms share a cell.\<close>

type_synonym namedConstraint = "string \<times> constraint"

definition printRanking :: "namedConstraint list \<Rightarrow> string list" where
  "printRanking ranking = map fst ranking"

fun goodRanks ::
  "((form \<times> string) list \<Rightarrow> (form \<times> string) list) \<Rightarrow> form list list \<Rightarrow> form list
     \<Rightarrow> form list \<Rightarrow> bool \<Rightarrow> namedConstraint list list \<Rightarrow> string list list" where
  "goodRanks srt ur_partition urs vocab stop [] = []"
| "goodRanks srt ur_partition urs vocab stop (rank # rankings) =
     (if areSamePartitions (getWinnerPartition srt (map snd rank) urs vocab) ur_partition
      then (if stop then [printRanking rank]
            else printRanking rank # goodRanks srt ur_partition urs vocab stop rankings)
      else goodRanks srt ur_partition urs vocab stop rankings)"

fun searchVocabs ::
  "((form \<times> string) list \<Rightarrow> (form \<times> string) list) \<Rightarrow> form list list \<Rightarrow> form list
     \<Rightarrow> bool \<Rightarrow> namedConstraint list list \<Rightarrow> form list list
     \<Rightarrow> (form list \<times> string list list) list" where
  "searchVocabs srt ur_partition urs stop rankings [] = []"
| "searchVocabs srt ur_partition urs stop rankings (vocab # vocab_list) =
     (let good_ranks = goodRanks srt ur_partition urs vocab stop rankings
      in (if length good_ranks > 0 then [(vocab, good_ranks)] else [])
         @ searchVocabs srt ur_partition urs stop rankings vocab_list)"

definition findVocabularyRankingPairs ::
  "((form \<times> string) list \<Rightarrow> (form \<times> string) list) \<Rightarrow> formType \<Rightarrow> form list list
     \<Rightarrow> namedConstraint list list \<Rightarrow> string list \<Rightarrow> bool
     \<Rightarrow> error + (form list \<times> string list list) list" where
  "findVocabularyRankingPairs srt type_of_form ur_partition rankings list_values_to_exclude stop =
     (case generateForms type_of_form list_values_to_exclude of
        Inl e \<Rightarrow> Inl e
      | Inr sforms \<Rightarrow>
          Inr (searchVocabs srt ur_partition (concat ur_partition) stop rankings
                 (combinations sforms (length ur_partition))))"

section \<open>Containment\<close>

lemma form_eq_iff: "truthy (form_eq a b) \<longleftrightarrow> a = b"
  by (cases a; cases b) (auto simp: form_eq_def getValues_def)

lemma contains_never_raises:
  "contains a b = Inr (a \<noteq> b \<and> list_all (\<lambda>t. snd t \<subseteq> fst t) (zip (getValues a) (getValues b)))"
  by (simp add: contains_def form_eq_iff)

lemma containsB_iff:
  "containsB a b \<longleftrightarrow>
     a \<noteq> b \<and> list_all (\<lambda>t. snd t \<subseteq> fst t) (zip (getValues a) (getValues b))"
  by (simp add: containsB_def contains_never_raises)

text \<open>
  C2: calling \<open>contains\<close> on forms of different concrete types fails with a TypeMismatch
  error.  The code does not: the guard compares \<open>type(self)\<close> with itself, so for an
  \<open>NForm\<close> and a \<open>VForm\<close> the call returns a boolean.
\<close>

theorem contains_across_types_returns:
  "contains (NForm {''sg''} {} {}) (VForm {} {}) = Inr True
   \<and> typeOf (NForm {''sg''} {} {}) \<noteq> typeOf (VForm {} {})"
  by (simp add: contains_def form_eq_def getValues_def)

text \<open>
  C5: on forms of one concrete type \<open>contains\<close> is a strict partial order: it is
  irreflexive, asymmetric (and a form never contains an equal form), and transitive.
\<close>

theorem contains_strict_partial_order:
  assumes "typeOf a = typeOf b" and "typeOf b = typeOf c"
  shows "contains a a = Inr False
    \<and> (contains a b = Inr True \<longrightarrow> contains b a = Inr False \<and> a \<noteq> b)
    \<and> (contains a b = Inr True \<and> contains b c = Inr True \<longrightarrow> contains a c = Inr True)"
proof -
  have irr: "contains a a = Inr False"
    by (simp add: contains_never_raises)
  have asym: "contains a b = Inr True \<longrightarrow> contains b a = Inr False \<and> a \<noteq> b"
    using assms(1)
    by (cases a; cases b) (auto simp: contains_never_raises getValues_def)
  have trans: "contains a b = Inr True \<and> contains b c = Inr True \<longrightarrow> contains a c = Inr True"
    using assms
    by (cases a; cases b; cases c) (auto simp: contains_never_raises getValues_def)
  from irr asym trans show ?thesis by blast
qed

theorem contains_strict_partial_order_witness:
  "typeOf (NForm {''sg'', ''pl''} {} {}) = typeOf (NForm {''sg''} {} {})
   \<and> typeOf (NForm {''sg''} {} {}) = typeOf (NForm {} {} {})
   \<and> contains (NForm {''sg'', ''pl''} {} {}) (NForm {''sg''} {} {}) = Inr True
   \<and> contains (NForm {''sg''} {} {}) (NForm {} {} {}) = Inr True
   \<and> contains (NForm {''sg''} {} {}) (NForm {''sg'', ''pl''} {} {}) = Inr False
   \<and> contains (NForm {''sg'', ''pl''} {} {}) (NForm {} {} {}) = Inr True
   \<and> contains (NForm {''sg'', ''pl''} {} {}) (NForm {''sg'', ''pl''} {} {}) = Inr False"
  using contains_strict_partial_order
          [of "NForm {''sg'', ''pl''} {} {}" "NForm {''sg''} {} {}" "NForm {} {} {}"]
  by (simp add: contains_never_raises getValues_def)

section \<open>Construction\<close>

text \<open>
  C3: constructing a form from two distinct non-zero tokens of one feature group fails.
  The code does not: \<open>NForm('sg', 'pl')\<close> and \<open>VForm('auth', 'addr')\<close> are built, with
  the first token of the group as the value.  \<open>wellFormedArgs\<close> itself rejects the two
  tokens when they are passed one by one.
\<close>

theorem construction_accepts_two_values_of_a_group:
  "NForm_init [''sg'', ''pl''] = Inr (NForm {''sg''} {} {})
   \<and> VForm_init [''auth'', ''addr''] = Inr (VForm {} {''part'', ''auth''})
   \<and> wellFormedArgs (map GSet NForm_grouped_values) [AStr ''sg'', AStr ''pl''] = Inr False"
  by (simp add: NForm_init_def NForm_all_values_def wellFormedArgs_def valuesOf_def
      NForm_feature_val_dict_def slotValue_def NForm_string_to_val_dict_def
      VForm_init_def VForm_all_values_def VForm_feature_val_dict_def VForm_string_to_val_dict_def
      NForm_grouped_values_def conflict_def)

section \<open>Paths\<close>

lemma pyMin_in: "pyMin x xs \<in> set (x # xs)"
  unfolding pyMin_def by (induction xs arbitrary: x) auto

lemma pyMax_in: "pyMax x xs \<in> set (x # xs)"
  unfolding pyMax_def by (induction xs arbitrary: x) auto

lemma getBottom_two: "getBottom [form1, form2] \<noteq> []"
  using pyMin_in [of form1 "[form2]"] by (auto simp: form_eq_iff filter_empty_conv)

lemma getTop_two: "getTop [form1, form2] \<noteq> []"
  using pyMax_in [of form1 "[form2]"] by (auto simp: form_eq_iff filter_empty_conv)

text \<open>
  C1: every path \<open>getPaths\<close> returns reaches the upper endpoint: its last element is
  immediately contained by the upper endpoint.  The code does not ensure this: between the
  empty form and the dative, with only the nominative in the pool, it returns the path
  holding the nominative alone, which the dative contains but not immediately.
\<close>

theorem getPaths_returns_dead_end_path:
  "getPaths (NForm {} {} {}) (NForm {} {''nom'', ''acc'', ''dat''} {}) [NForm {} {''nom''} {}]
     = Some [APath [NForm {} {''nom''} {}]]
   \<and> \<not> immediateContains (NForm {} {''nom'', ''acc'', ''dat''} {}) (NForm {} {''nom''} {})
   \<and> nonImmediateContains (NForm {} {''nom'', ''acc'', ''dat''} {}) (NForm {} {''nom''} {})"
  by code_simp

text \<open>
  C4: for two forms in immediate containment \<open>getPaths\<close> returns a list holding one
  path, the pair of the lower and the upper endpoint.  The code returns the two
  endpoints themselves as the elements of the list, not a list holding their pair.
\<close>

theorem getPaths_immediate_returns_flat_pair:
  "immediateContainment (NForm {} {} {}) (NForm {} {''nom''} {})
   \<and> getPaths (NForm {} {} {}) (NForm {} {''nom''} {}) []
       = Some [AForm (NForm {} {} {}), AForm (NForm {} {''nom''} {})]
   \<and> getPaths (NForm {} {''nom''} {}) (NForm {} {} {}) [NForm {''sg''} {} {}]
       = Some [AForm (NForm {} {} {}), AForm (NForm {} {''nom''} {})]"
  by code_simp

subsection \<open>The path loop returns on forms of one class\<close>

lemma containsB_trans:
  assumes "containsB f e" and "containsB e x" and "typeOf f = typeOf e"
  shows "containsB f x"
  using assms
  by (cases f; cases e; cases x) (auto simp: containsB_iff getValues_def)

lemma containsB_irrefl: "\<not> containsB f f"
  by (simp add: containsB_iff)

lemma filter_length_less:
  assumes "\<forall>f\<in>set d. P f \<longrightarrow> Q f" and "e \<in> set d" and "Q e" and "\<not> P e"
  shows "length (filter P d) < length (filter Q d)"
  using assms
proof (induction d)
  case Nil
  then show ?case by simp
next
  case (Cons a d)
  have le: "length (filter P d) \<le> length (filter Q d)"
    using Cons.prems(1) by (induction d) auto
  show ?case
  proof (cases "e = a")
    case True
    then show ?thesis using Cons.prems le by simp
  next
    case False
    then have "e \<in> set d" using Cons.prems(2) by simp
    then have "length (filter P d) < length (filter Q d)"
      using Cons.IH Cons.prems by simp
    then show ?thesis using Cons.prems(1) by simp
  qed
qed

lemma above_decreases:
  assumes dom: "\<forall>f\<in>set domain. typeOf f = ty"
    and e: "e \<in> set domain" and c: "containsB e x"
  shows "length (filter (\<lambda>f. containsB f e) domain)
           < length (filter (\<lambda>f. containsB f x) domain)"
proof (rule filter_length_less [where e = e])
  show "\<forall>f\<in>set domain. containsB f e \<longrightarrow> containsB f x"
  proof (intro ballI impI)
    fix f assume "f \<in> set domain" "containsB f e"
    then show "containsB f x"
      using c dom e by (intro containsB_trans [of f e x]) simp_all
  qed
  show "e \<in> set domain" by (rule e)
  show "containsB e x" by (rule c)
  show "\<not> containsB e e" by (rule containsB_irrefl)
qed

lemma extendAll_member:
  assumes "q \<in> set (extendAll top_form domain paths)"
  shows "\<exists>p e. p \<in> set paths \<and> e \<in> set domain \<and> q = p @ [e] \<and> containsB e (last p)"
  using assms
  by (auto simp: extendAll_def getExtensions_def immediateContains_def split: if_splits)

lemma pathsLoop_returns:
  assumes dom: "\<forall>f\<in>set domain. typeOf f = ty"
  shows "\<exists>r. pathsLoop top_form domain paths = Some r"
proof (induction "Max (insert 0 ((\<lambda>p. length (filter (\<lambda>f. containsB f (last p)) domain))
                                   ` set paths))"
       arbitrary: paths rule: less_induct)
  case less
  let ?h = "\<lambda>p. length (filter (\<lambda>f. containsB f (last p)) domain)"
  let ?ext = "extendAll top_form domain paths"
  show ?case
  proof (cases "?ext = paths \<or> length ?ext = 0")
    case True
    then have "pathsLoop top_form domain paths = Some paths"
      by (subst pathsLoop.simps) simp
    then show ?thesis by blast
  next
    case False
    then have ne: "?ext \<noteq> []" by simp
    have step: "\<forall>q\<in>set ?ext. \<exists>p\<in>set paths. ?h q < ?h p"
    proof
      fix q assume "q \<in> set ?ext"
      from extendAll_member [OF this] obtain p e where
        pe: "p \<in> set paths" "e \<in> set domain" "q = p @ [e]" "containsB e (last p)"
        by blast
      have "?h q < ?h p"
        using above_decreases [OF dom pe(2) pe(4)] pe(3) by simp
      with pe(1) show "\<exists>p\<in>set paths. ?h q < ?h p" by blast
    qed
    have bound: "\<forall>p\<in>set paths. ?h p \<le> Max (insert 0 (?h ` set paths))"
      by simp
    have "\<forall>v\<in>insert 0 (?h ` set ?ext). v < Max (insert 0 (?h ` set paths))"
    proof
      fix v assume v: "v \<in> insert 0 (?h ` set ?ext)"
      from ne obtain q0 where q0: "q0 \<in> set ?ext" by (cases ?ext) auto
      with step obtain p0 where p0: "p0 \<in> set paths" "?h q0 < ?h p0" by blast
      from bound p0(1) have "?h p0 \<le> Max (insert 0 (?h ` set paths))" by blast
      with p0(2) have "?h q0 < Max (insert 0 (?h ` set paths))" by (rule less_le_trans)
      then have pos: "0 < Max (insert 0 (?h ` set paths))" by (rule le_less_trans [OF le0])
      show "v < Max (insert 0 (?h ` set paths))"
      proof (cases "v = 0")
        case True
        then show ?thesis using pos by simp
      next
        case False
        with v obtain q where q: "q \<in> set ?ext" "v = ?h q" by auto
        with step obtain p where p: "p \<in> set paths" "?h q < ?h p" by blast
        from bound p(1) have "?h p \<le> Max (insert 0 (?h ` set paths))" by blast
        with p(2) have "?h q < Max (insert 0 (?h ` set paths))" by (rule less_le_trans)
        then show ?thesis unfolding q(2) .
      qed
    qed
    then have "Max (insert 0 (?h ` set ?ext)) < Max (insert 0 (?h ` set paths))"
      by (subst Max_less_iff) simp_all
    from less [OF this] obtain r where "pathsLoop top_form domain ?ext = Some r"
      by blast
    moreover have "pathsLoop top_form domain paths = pathsLoop top_form domain ?ext"
      using False by (subst pathsLoop.simps) simp
    ultimately show ?thesis by simp
  qed
qed

lemma getPaths_returns:
  assumes "typeOf form1 = ty" and "typeOf form2 = ty"
    and "\<forall>f\<in>set list_of_forms. typeOf f = ty"
  shows "\<exists>r. getPaths form1 form2 list_of_forms = Some r"
proof -
  let ?domain = "remdups (filter (\<lambda>f. isBetween f form1 form2) list_of_forms
                          @ [form1, form2])"
  have "\<forall>f\<in>set ?domain. typeOf f = ty"
    using assms by auto
  from pathsLoop_returns [OF this] obtain r where
    "pathsLoop (firstOf (getTop [form1, form2]) form1) ?domain
       [[firstOf (getBottom [form1, form2]) form1]] = Some r"
    by blast
  then show ?thesis
    unfolding getPaths_def Let_def by simp
qed

lemma scanPairs_returns:
  assumes "\<forall>f\<in>set cell. typeOf f = ty"
    and "\<forall>p\<in>set ps. typeOf (fst p) = ty \<and> typeOf (snd p) = ty"
  shows "\<exists>b. scanPairs cell ps = Some b"
  using assms(2)
proof (induction ps)
  case Nil
  have "scanPairs cell [] = Some False" by simp
  then show ?case by blast
next
  case (Cons p ps)
  from Cons.prems have "typeOf (fst p) = ty" "typeOf (snd p) = ty" by simp_all
  from getPaths_returns [OF this assms(1)] obtain r where
    r: "getPaths (fst p) (snd p) cell = Some r" by blast
  from Cons obtain b where b: "scanPairs cell ps = Some b" by auto
  show ?case
  proof (cases "length r = 0")
    case True
    then have "scanPairs cell (p # ps) = Some True" using r by simp
    then show ?thesis by blast
  next
    case False
    then have "scanPairs cell (p # ps) = Some b" using r b by simp
    then show ?thesis by blast
  qed
qed

lemma isBadCell_returns:
  assumes "\<forall>f\<in>set cell. typeOf f = ty"
  shows "\<exists>b. isBadCell cell = Some b"
proof -
  have "\<forall>p\<in>set (containment_pairs cell). typeOf (fst p) = ty \<and> typeOf (snd p) = ty"
    using assms by (auto simp: containment_pairs_def)
  from scanPairs_returns [OF assms this] show ?thesis
    by (simp add: isBadCell_def)
qed

lemma isAba_returns:
  assumes "\<forall>cell\<in>set part. \<forall>f\<in>set cell. typeOf f = ty"
  shows "\<exists>b. isAba part = Some b"
  using assms
proof (induction part)
  case Nil
  have "isAba [] = Some False" by simp
  then show ?case by blast
next
  case (Cons cell part)
  then have "\<forall>f\<in>set cell. typeOf f = ty" by simp
  from isBadCell_returns [OF this] obtain b where b: "isBadCell cell = Some b" by blast
  from Cons obtain b' where b': "isAba part = Some b'" by auto
  have "isAba (cell # part) = Some (if length cell > 1 then b else b')"
    using b b' by simp
  then show ?case by blast
qed

section \<open>Bad cells\<close>

text \<open>
  C6: \<open>isAba\<close> returns what \<open>isBadCell\<close> returns on the first cell, in the order of the
  partition, that has more than one member, and False when there is no such cell.  Later
  cells are not examined.  On a partition of forms of one class the call returns.
\<close>

theorem isAba_first_multi_member_cell:
  "isAba part =
     (case find (\<lambda>cell. length cell > 1) part of
        None \<Rightarrow> Some False
      | Some cell \<Rightarrow> isBadCell cell)
   \<and> ((\<forall>cell\<in>set part. \<forall>f\<in>set cell. typeOf f = ty) \<longrightarrow> (\<exists>b. isAba part = Some b))"
proof -
  have "isAba part =
     (case find (\<lambda>cell. length cell > 1) part of
        None \<Rightarrow> Some False
      | Some cell \<Rightarrow> isBadCell cell)"
    by (induction part) simp_all
  then show ?thesis using isAba_returns [of part ty] by blast
qed

theorem isAba_first_multi_member_cell_witness:
  "isAba [[NForm {''sg''} {} {}],
          [NForm {} {} {}, NForm {} {''nom''} {}, NForm {} {''nom'', ''acc''} {}],
          [NForm {} {} {}, NForm {} {''nom'', ''acc''} {}]]
     = isBadCell [NForm {} {} {}, NForm {} {''nom''} {}, NForm {} {''nom'', ''acc''} {}]
   \<and> isBadCell [NForm {} {} {}, NForm {} {''nom''} {}, NForm {} {''nom'', ''acc''} {}]
       = Some False
   \<and> isBadCell [NForm {} {} {}, NForm {} {''nom'', ''acc''} {}] = Some True
   \<and> isAba [[NForm {''sg''} {} {}], [NForm {} {} {}]] = Some False"
proof -
  have ty: "\<forall>cell\<in>set [[NForm {''sg''} {} {}],
          [NForm {} {} {}, NForm {} {''nom''} {}, NForm {} {''nom'', ''acc''} {}],
          [NForm {} {} {}, NForm {} {''nom'', ''acc''} {}]]. \<forall>f\<in>set cell. typeOf f = NFormT"
    by simp
  have ret: "\<exists>b. isAba [[NForm {''sg''} {} {}],
          [NForm {} {} {}, NForm {} {''nom''} {}, NForm {} {''nom'', ''acc''} {}],
          [NForm {} {} {}, NForm {} {''nom'', ''acc''} {}]] = Some b"
    using ty isAba_first_multi_member_cell [of "[[NForm {''sg''} {} {}],
          [NForm {} {} {}, NForm {} {''nom''} {}, NForm {} {''nom'', ''acc''} {}],
          [NForm {} {} {}, NForm {} {''nom'', ''acc''} {}]]" NFormT]
    by blast
  have first: "isAba [[NForm {''sg''} {} {}],
          [NForm {} {} {}, NForm {} {''nom''} {}, NForm {} {''nom'', ''acc''} {}],
          [NForm {} {} {}, NForm {} {''nom'', ''acc''} {}]]
     = isBadCell [NForm {} {} {}, NForm {} {''nom''} {}, NForm {} {''nom'', ''acc''} {}]"
    using isAba_first_multi_member_cell [of "[[NForm {''sg''} {} {}],
          [NForm {} {} {}, NForm {} {''nom''} {}, NForm {} {''nom'', ''acc''} {}],
          [NForm {} {} {}, NForm {} {''nom'', ''acc''} {}]]" NFormT]
    by simp
  have none: "isAba [[NForm {''sg''} {} {}], [NForm {} {} {}]] = Some False"
    using isAba_first_multi_member_cell [of "[[NForm {''sg''} {} {}], [NForm {} {} {}]]" NFormT]
    by simp
  have good: "isBadCell [NForm {} {} {}, NForm {} {''nom''} {}, NForm {} {''nom'', ''acc''} {}]
          = Some False"
    by code_simp
  have bad: "isBadCell [NForm {} {} {}, NForm {} {''nom'', ''acc''} {}] = Some True"
    by code_simp
  from ret first none good bad show ?thesis by blast
qed

section \<open>Constraints and Eval\<close>

lemma Min_insert_above:
  fixes b x :: int
  assumes "finite S" and "b < x"
  shows "Min (insert b (insert x S)) = Min (insert b S)"
proof -
  have "Min (insert b (insert x S)) = Min (insert x (insert b S))"
    by (simp only: insert_commute)
  also have "\<dots> = min x (Min (insert b S))"
    using assms(1) by (intro Min_insert) simp_all
  also have "\<dots> = Min (insert b S)"
  proof -
    have "Min (insert b S) \<le> b" using assms(1) by (intro Min_le) simp_all
    then show ?thesis using assms(2) by (simp add: min_def)
  qed
  finally show ?thesis .
qed

lemma Min_insert_below:
  fixes b x :: int
  assumes "finite S" and "x < b"
  shows "Min (insert b (insert x S)) = Min (insert x S)"
proof -
  have "Min (insert b (insert x S)) = min b (Min (insert x S))"
    using assms(1) by (intro Min_insert) simp_all
  also have "\<dots> = Min (insert x S)"
  proof -
    have "Min (insert x S) \<le> x" using assms(1) by (intro Min_le) simp_all
    then show ?thesis using assms(2) by (simp add: min_def)
  qed
  finally show ?thesis .
qed

lemma depOrMax_scan:
  assumes "\<forall>w\<in>set ws. score w = b"
  shows "snd (fold (depOrMaxStep score) cs (Some b, ws))
           = filter (\<lambda>c. score c = Min (insert b (score ` set cs))) (ws @ cs)"
  using assms
proof (induction cs arbitrary: b ws)
  case Nil
  then show ?case by (simp add: filter_id_conv)
next
  case (Cons c cs)
  let ?S = "score ` set cs"
  let ?m = "Min (insert b (insert (score c) ?S))"
  have fin: "finite ?S" by simp
  have goal_eq: "score ` set (c # cs) = insert (score c) ?S" by simp
  consider (worse) "score c > b" | (tie) "score c = b" | (better) "score c < b"
    by linarith
  then have "snd (fold (depOrMaxStep score) (c # cs) (Some b, ws))
           = filter (\<lambda>x. score x = ?m) (ws @ c # cs)"
  proof cases
    case worse
    have m: "?m = Min (insert b ?S)"
      using fin worse by (rule Min_insert_above)
    have "Min (insert b ?S) \<le> b" using fin by (intro Min_le) simp_all
    then have ne: "score c \<noteq> Min (insert b ?S)" using worse by linarith
    have "snd (fold (depOrMaxStep score) (c # cs) (Some b, ws))
            = snd (fold (depOrMaxStep score) cs (Some b, ws))"
      using worse by simp
    also have "\<dots> = filter (\<lambda>x. score x = Min (insert b ?S)) (ws @ cs)"
      by (rule Cons.IH [OF Cons.prems])
    also have "\<dots> = filter (\<lambda>x. score x = Min (insert b ?S)) (ws @ c # cs)"
      using ne by simp
    finally show ?thesis unfolding m .
  next
    case tie
    have m: "?m = Min (insert b ?S)"
      using tie by simp
    have p: "\<forall>w\<in>set (ws @ [c]). score w = b" using Cons.prems tie by simp
    have "snd (fold (depOrMaxStep score) (c # cs) (Some b, ws))
            = snd (fold (depOrMaxStep score) cs (Some b, ws @ [c]))"
      using tie by simp
    also have "\<dots> = filter (\<lambda>x. score x = Min (insert b ?S)) ((ws @ [c]) @ cs)"
      by (rule Cons.IH [OF p])
    finally show ?thesis unfolding m by simp
  next
    case better
    have m: "?m = Min (insert (score c) ?S)"
      using fin better by (rule Min_insert_below)
    have le: "Min (insert (score c) ?S) \<le> score c" using fin by (intro Min_le) simp_all
    have "\<forall>w\<in>set ws. score w \<noteq> Min (insert (score c) ?S)"
    proof
      fix w assume "w \<in> set ws"
      then have "score w = b" using Cons.prems by blast
      then show "score w \<noteq> Min (insert (score c) ?S)" using le better by linarith
    qed
    then have ws: "filter (\<lambda>x. score x = Min (insert (score c) ?S)) ws = []"
      by (simp add: filter_empty_conv)
    have p: "\<forall>w\<in>set [c]. score w = score c" by simp
    have "snd (fold (depOrMaxStep score) (c # cs) (Some b, ws))
            = snd (fold (depOrMaxStep score) cs (Some (score c), [c]))"
      using better by simp
    also have "\<dots> = filter (\<lambda>x. score x = Min (insert (score c) ?S)) ([c] @ cs)"
      by (rule Cons.IH [OF p])
    also have "\<dots> = filter (\<lambda>x. score x = Min (insert (score c) ?S)) (ws @ c # cs)"
      using ws by simp
    finally show ?thesis unfolding m .
  qed
  then show ?case unfolding goal_eq .
qed

lemma DepOrMax_filter:
  "DepOrMax constr features ur candidates
     = filter (\<lambda>c. total_score constr features ur c
                      = Min (total_score constr features ur ` set candidates)) candidates"
proof (cases candidates)
  case Nil
  then show ?thesis by (simp add: DepOrMax_def)
next
  case (Cons c cs)
  have p: "\<forall>w\<in>set [c]. total_score constr features ur w = total_score constr features ur c"
    by simp
  have "DepOrMax constr features ur (c # cs)
          = snd (fold (depOrMaxStep (total_score constr features ur)) cs
                   (Some (total_score constr features ur c), [c]))"
    by (simp add: DepOrMax_def)
  also have "\<dots> = filter (\<lambda>x. total_score constr features ur x
                      = Min (insert (total_score constr features ur c)
                               (total_score constr features ur ` set cs))) ([c] @ cs)"
    by (rule depOrMax_scan [OF p])
  finally show ?thesis unfolding Cons by simp
qed


text \<open>
  C7: \<open>DepOrMax\<close> returns, in their original order, exactly the candidates whose total
  score is the minimum of the total scores of all candidates; the empty list for no
  candidates, and all candidates when all scores are tied.
\<close>

theorem DepOrMax_keeps_minimum_scores:
  "DepOrMax constr features ur candidates
     = filter (\<lambda>c. total_score constr features ur c
                      = Min (total_score constr features ur ` set candidates)) candidates
   \<and> DepOrMax constr features ur [] = []
   \<and> ((\<forall>c\<in>set candidates. \<forall>d\<in>set candidates.
          total_score constr features ur c = total_score constr features ur d)
        \<longrightarrow> DepOrMax constr features ur candidates = candidates)"
proof -
  have tied: "DepOrMax constr features ur candidates = candidates"
    if t: "\<forall>c\<in>set candidates. \<forall>d\<in>set candidates.
          total_score constr features ur c = total_score constr features ur d"
  proof (cases candidates)
    case Nil
    then show ?thesis by (simp add: DepOrMax_def)
  next
    case (Cons x xs)
    let ?f = "total_score constr features ur"
    have x: "x \<in> set candidates" using Cons by simp
    have allx: "\<forall>c\<in>set candidates. ?f c = ?f x"
    proof
      fix c assume "c \<in> set candidates"
      with x t show "?f c = ?f x" by blast
    qed
    have "Min (?f ` set candidates) \<in> ?f ` set candidates"
      using x by (intro Min_in) auto
    then obtain c where "c \<in> set candidates" "Min (?f ` set candidates) = ?f c"
      by blast
    with allx have minx: "Min (?f ` set candidates) = ?f x" by simp
    have "filter (\<lambda>c. ?f c = Min (?f ` set candidates)) candidates = candidates"
      unfolding minx filter_id_conv using allx by blast
    then show ?thesis
      by (simp only: DepOrMax_filter)
  qed
  have "DepOrMax constr features ur [] = []"
    by (simp add: DepOrMax_def)
  then show ?thesis
    using DepOrMax_filter [of constr features ur candidates] tied by blast
qed

theorem DepOrMax_keeps_minimum_scores_witness:
  "DepOrMax (\<lambda>u s. if u = s then 0 else 1) [''Number'', ''Case'']
      (NForm {''sg''} {''nom''} {})
      [NForm {} {} {}, NForm {''sg''} {''nom''} {''neu''}, NForm {} {''nom''} {},
       NForm {''sg''} {''nom''} {}]
     = [NForm {''sg''} {''nom''} {''neu''}, NForm {''sg''} {''nom''} {}]
   \<and> total_score (\<lambda>u s. if u = s then 0 else 1) [''Number'', ''Case'']
        (NForm {''sg''} {''nom''} {}) (NForm {''sg''} {} {})
       = total_score (\<lambda>u s. if u = s then 0 else 1) [''Number'', ''Case'']
          (NForm {''sg''} {''nom''} {}) (NForm {} {''nom''} {})
   \<and> DepOrMax (\<lambda>u s. if u = s then 0 else 1) [''Number'', ''Case'']
        (NForm {''sg''} {''nom''} {}) [NForm {''sg''} {} {}, NForm {} {''nom''} {}]
       = [NForm {''sg''} {} {}, NForm {} {''nom''} {}]
   \<and> DepOrMax (\<lambda>u s. if u = s then 0 else 1) [''Number'', ''Case'']
        (NForm {''sg''} {''nom''} {}) [] = []"
proof -
  have tie: "\<forall>c\<in>set [NForm {''sg''} {} {}, NForm {} {''nom''} {}].
        \<forall>d\<in>set [NForm {''sg''} {} {}, NForm {} {''nom''} {}].
          total_score (\<lambda>u s. if u = s then 0 else 1) [''Number'', ''Case'']
             (NForm {''sg''} {''nom''} {}) c
          = total_score (\<lambda>u s. if u = s then 0 else 1) [''Number'', ''Case'']
             (NForm {''sg''} {''nom''} {}) d"
    by (simp add: total_score_def)
  have tied: "DepOrMax (\<lambda>u s. if u = s then 0 else 1) [''Number'', ''Case'']
        (NForm {''sg''} {''nom''} {}) [NForm {''sg''} {} {}, NForm {} {''nom''} {}]
       = [NForm {''sg''} {} {}, NForm {} {''nom''} {}]"
    using tie
      DepOrMax_keeps_minimum_scores [of "\<lambda>u s. if u = s then 0 else 1" "[''Number'', ''Case'']"
        "NForm {''sg''} {''nom''} {}" "[NForm {''sg''} {} {}, NForm {} {''nom''} {}]"]
    by blast
  have m: "Min {2, 0, 1, 0 :: int} = 0"
    by simp
  have best: "DepOrMax (\<lambda>u s. if u = s then 0 else 1) [''Number'', ''Case'']
      (NForm {''sg''} {''nom''} {})
      [NForm {} {} {}, NForm {''sg''} {''nom''} {''neu''}, NForm {} {''nom''} {},
       NForm {''sg''} {''nom''} {}]
     = [NForm {''sg''} {''nom''} {''neu''}, NForm {''sg''} {''nom''} {}]"
    using m
      DepOrMax_keeps_minimum_scores [of "\<lambda>u s. if u = s then 0 else 1" "[''Number'', ''Case'']"
        "NForm {''sg''} {''nom''} {}"
        "[NForm {} {} {}, NForm {''sg''} {''nom''} {''neu''}, NForm {} {''nom''} {},
          NForm {''sg''} {''nom''} {}]"]
    by (simp add: total_score_def)
  show ?thesis
    using tied best by (simp add: total_score_def DepOrMax_def)
qed

lemma otEval_short: "length candidates \<le> 1 \<Longrightarrow> otEval rank ur candidates = candidates"
  by (cases rank) simp_all

text \<open>
  C8: \<open>otEval\<close> applies the constraints in the order of the ranking, each to the output
  of the one before, and stops as soon as at most one candidate remains or the ranking is
  exhausted: the result is the fold of a prefix of the ranking, every shorter prefix
  leaves more than one candidate, and the prefix is the whole ranking unless at most one
  candidate is left.  A list of zero or one candidates is returned unchanged.
\<close>

theorem otEval_applies_ranking_prefix:
  "(\<exists>n\<le>length rank.
       otEval rank ur candidates = fold (\<lambda>c cs. c ur cs) (take n rank) candidates
     \<and> (\<forall>k<n. length (fold (\<lambda>c cs. c ur cs) (take k rank) candidates) > 1)
     \<and> (n = length rank \<or> length (otEval rank ur candidates) \<le> 1))
   \<and> (length candidates \<le> 1 \<longrightarrow> otEval rank ur candidates = candidates)
   \<and> otEval rank ur [x] = [x]"
proof -
  have pre: "\<exists>n\<le>length rank.
       otEval rank ur candidates = fold (\<lambda>c cs. c ur cs) (take n rank) candidates
     \<and> (\<forall>k<n. length (fold (\<lambda>c cs. c ur cs) (take k rank) candidates) > 1)
     \<and> (n = length rank \<or> length (otEval rank ur candidates) \<le> 1)"
  proof (induction rank arbitrary: candidates)
    case Nil
    then show ?case by simp
  next
    case (Cons c rank)
    show ?case
    proof (cases "length candidates > 1")
      case False
      then have "otEval (c # rank) ur candidates = candidates" by simp
      then have "0 \<le> length (c # rank)
         \<and> otEval (c # rank) ur candidates
             = fold (\<lambda>c cs. c ur cs) (take 0 (c # rank)) candidates
         \<and> (\<forall>k<0. length (fold (\<lambda>c cs. c ur cs) (take k (c # rank)) candidates) > 1)
         \<and> (0 = length (c # rank) \<or> length (otEval (c # rank) ur candidates) \<le> 1)"
        using False by simp
      then show ?thesis by blast
    next
      case True
      from Cons.IH [of "c ur candidates"] obtain n where n: "n \<le> length rank"
        "otEval rank ur (c ur candidates)
           = fold (\<lambda>c cs. c ur cs) (take n rank) (c ur candidates)"
        "\<forall>k<n. length (fold (\<lambda>c cs. c ur cs) (take k rank) (c ur candidates)) > 1"
        "n = length rank \<or> length (otEval rank ur (c ur candidates)) \<le> 1"
        by blast
      have ev: "otEval (c # rank) ur candidates = otEval rank ur (c ur candidates)"
        using True by simp
      have "\<forall>k<Suc n. length (fold (\<lambda>c cs. c ur cs) (take k (c # rank)) candidates) > 1"
      proof (intro allI impI)
        fix k assume "k < Suc n"
        then show "length (fold (\<lambda>c cs. c ur cs) (take k (c # rank)) candidates) > 1"
          using True n(3) by (cases k) simp_all
      qed
      then have "Suc n \<le> length (c # rank)
         \<and> otEval (c # rank) ur candidates
             = fold (\<lambda>c cs. c ur cs) (take (Suc n) (c # rank)) candidates
         \<and> (\<forall>k<Suc n. length (fold (\<lambda>c cs. c ur cs) (take k (c # rank)) candidates) > 1)
         \<and> (Suc n = length (c # rank) \<or> length (otEval (c # rank) ur candidates) \<le> 1)"
        using n(1,2,4) ev by simp
      then show ?thesis by blast
    qed
  qed
  show ?thesis
    using pre otEval_short [of candidates rank ur] otEval_short [of "[x]" rank ur] by simp
qed


theorem otEval_applies_ranking_prefix_witness:
  "otEval
     [DepOrMax (\<lambda>u s. if u = s then 0 else 1) [''Number''],
      DepOrMax (\<lambda>u s. if u = s then 0 else 1) [''Case''],
      (\<lambda>ur cs. [])] (NForm {''sg''} {''nom''} {})
     [NForm {} {} {}, NForm {''sg''} {} {}, NForm {''sg''} {''nom''} {}]
       = [NForm {''sg''} {''nom''} {}]
   \<and> otEval
     [DepOrMax (\<lambda>u s. if u = s then 0 else 1) [''Number''],
      DepOrMax (\<lambda>u s. if u = s then 0 else 1) [''Case''],
      (\<lambda>ur cs. [])] (NForm {''sg''} {''nom''} {})
     [NForm {} {} {}, NForm {''sg''} {} {}, NForm {''sg''} {''nom''} {}]
       = fold (\<lambda>c cs. c (NForm {''sg''} {''nom''} {}) cs) (take 2
     [DepOrMax (\<lambda>u s. if u = s then 0 else 1) [''Number''],
      DepOrMax (\<lambda>u s. if u = s then 0 else 1) [''Case''],
      (\<lambda>ur cs. [])])
     [NForm {} {} {}, NForm {''sg''} {} {}, NForm {''sg''} {''nom''} {}]
   \<and> length [(VForm {} {})] \<le> 1
   \<and> otEval
     [DepOrMax (\<lambda>u s. if u = s then 0 else 1) [''Number''],
      DepOrMax (\<lambda>u s. if u = s then 0 else 1) [''Case''],
      (\<lambda>ur cs. [])] (NForm {''sg''} {''nom''} {}) [(VForm {} {})] = [(VForm {} {})]"
proof -
  have e: "otEval
     [DepOrMax (\<lambda>u s. if u = s then 0 else 1) [''Number''],
      DepOrMax (\<lambda>u s. if u = s then 0 else 1) [''Case''],
      (\<lambda>ur cs. [])] (NForm {''sg''} {''nom''} {})
     [NForm {} {} {}, NForm {''sg''} {} {}, NForm {''sg''} {''nom''} {}]
       = [NForm {''sg''} {''nom''} {}]"
    by (simp add: DepOrMax_def total_score_def)
  have f: "fold (\<lambda>c cs. c (NForm {''sg''} {''nom''} {}) cs) (take 2
     [DepOrMax (\<lambda>u s. if u = s then 0 else 1) [''Number''],
      DepOrMax (\<lambda>u s. if u = s then 0 else 1) [''Case''],
      (\<lambda>ur cs. [])])
     [NForm {} {} {}, NForm {''sg''} {} {}, NForm {''sg''} {''nom''} {}]
       = [NForm {''sg''} {''nom''} {}]"
    by (simp add: DepOrMax_def total_score_def)
  have s: "length [(VForm {} {})] \<le> 1 \<and> otEval
     [DepOrMax (\<lambda>u s. if u = s then 0 else 1) [''Number''],
      DepOrMax (\<lambda>u s. if u = s then 0 else 1) [''Case''],
      (\<lambda>ur cs. [])] (NForm {''sg''} {''nom''} {}) [(VForm {} {})] = [(VForm {} {})]"
    using otEval_applies_ranking_prefix [of
     "[DepOrMax (\<lambda>u s. if u = s then 0 else 1) [''Number''],
      DepOrMax (\<lambda>u s. if u = s then 0 else 1) [''Case''],
      (\<lambda>ur cs. [])]" "NForm {''sg''} {''nom''} {}" "[VForm {} {}]" "VForm {} {}"]
    by simp
  show ?thesis
    using e f s by simp
qed

section \<open>The winner partition\<close>

lemma winnersDict_keys:
  "distinct (map fst acc) \<Longrightarrow>
     distinct (map fst (fold (\<lambda>ur winners. AList.update ur (f ur) winners) urs acc))
     \<and> set (map fst (fold (\<lambda>ur winners. AList.update ur (f ur) winners) urs acc))
         = set (map fst acc) \<union> set urs"
proof (induction urs arbitrary: acc)
  case Nil
  then show ?case by simp
next
  case (Cons u urs)
  have d: "distinct (map fst (AList.update u (f u) acc))"
    using Cons.prems by (rule AList.distinct_update)
  have s: "set (map fst (AList.update u (f u) acc)) = insert u (set (map fst acc))"
    using AList.dom_update [of u "f u" acc] by simp
  from Cons.IH [OF d] s show ?case by auto
qed

lemma groupStep_mset:
  "mset (concat (map snd (AList.update v (defaultGet res v @ [k]) res)))
     = add_mset k (mset (concat (map snd res)))"
proof -
  have "mset (concat (map snd (AList.update v (d @ [k]) res)))
          = add_mset k (mset (concat (map snd res)))"
    if "d = (case map_of res v of None \<Rightarrow> [] | Some ks \<Rightarrow> ks)" for d
    using that by (induction res) auto
  then show ?thesis by (simp add: defaultGet_def)
qed

lemma groupStep_nonempty:
  "[] \<notin> set (map snd res) \<Longrightarrow> c \<noteq> [] \<Longrightarrow> [] \<notin> set (map snd (AList.update v c res))"
  by (induction res) auto

lemma group_fold:
  "[] \<notin> set (map snd res) \<Longrightarrow>
     [] \<notin> set (map snd (fold groupStep kvs res))
     \<and> mset (concat (map snd (fold groupStep kvs res)))
         = mset (concat (map snd res)) + mset (map fst kvs)"
proof (induction kvs arbitrary: res)
  case Nil
  then show ?case by simp
next
  case (Cons kv kvs)
  have ne: "[] \<notin> set (map snd (groupStep kv res))"
    unfolding groupStep_def using Cons.prems by (intro groupStep_nonempty) simp_all
  have m: "mset (concat (map snd (groupStep kv res)))
             = add_mset (fst kv) (mset (concat (map snd res)))"
    unfolding groupStep_def by (rule groupStep_mset)
  from Cons.IH [OF ne] m show ?case by simp
qed

lemma getWinnerPartition_mset:
  assumes "\<And>xs. mset (srt xs) = mset xs"
  shows "[] \<notin> set (getWinnerPartition srt rank ur_forms sr_forms)"
    and "mset (concat (getWinnerPartition srt rank ur_forms sr_forms))
           = mset (map fst (winnersDict rank ur_forms sr_forms))"
proof -
  let ?w = "winnersDict rank ur_forms sr_forms"
  let ?t = "map (\<lambda>kv. (fst kv, strList (snd kv))) ?w"
  have g: "[] \<notin> set (map snd (fold groupStep (srt ?t) []))
     \<and> mset (concat (map snd (fold groupStep (srt ?t) [])))
         = mset (concat (map snd [])) + mset (map fst (srt ?t))"
    using group_fold [of "[]" "srt ?t"] by simp
  have keys: "map fst ?t = map fst ?w" by (simp add: comp_def)
  have "mset (map fst (srt ?t)) = image_mset fst (mset (srt ?t))" by (rule mset_map)
  also have "\<dots> = image_mset fst (mset ?t)" by (simp only: assms)
  also have "\<dots> = mset (map fst ?t)" by (rule mset_map [symmetric])
  finally have p: "mset (map fst (srt ?t)) = mset (map fst ?w)" unfolding keys .
  show "[] \<notin> set (getWinnerPartition srt rank ur_forms sr_forms)"
    using g by (simp add: getWinnerPartition_def Let_def)
  show "mset (concat (getWinnerPartition srt rank ur_forms sr_forms)) = mset (map fst ?w)"
    using g p by (simp add: getWinnerPartition_def Let_def)
qed

lemma disjoint_cells:
  assumes "distinct (concat p)" and "[] \<notin> set p" and "i < j" and "j < length p"
  shows "set (p ! i) \<inter> set (p ! j) = {}"
proof -
  have "distinct (removeAll [] p)" using assms(1) by (simp add: distinct_concat_iff)
  then have "distinct p" using assms(2) by simp
  then have "p ! i \<noteq> p ! j" using assms(3,4) by (simp add: nth_eq_iff_index_eq)
  moreover have "p ! i \<in> set p" "p ! j \<in> set p" using assms(3,4) by simp_all
  ultimately show ?thesis
    using assms(1) unfolding distinct_concat_iff by blast
qed

lemma insertPair_mset: "mset (insertPair x ys) = add_mset x (mset ys)"
  by (induction ys) simp_all

lemma insertionSorted_mset: "mset (insertionSorted xs) = mset xs"
  unfolding insertionSorted_def by (induction xs) (simp_all add: insertPair_mset)

text \<open>
  C10: whatever permutation the sorting step returns, the cells of the winner partition
  are not empty and pairwise disjoint, no form occurs twice in a cell, and together the
  cells hold exactly the underlying forms, each distinct form once.
\<close>

theorem getWinnerPartition_partitions_ur_forms:
  assumes "\<And>xs. mset (srt xs) = mset xs"
  shows "[] \<notin> set (getWinnerPartition srt rank ur_forms sr_forms)
    \<and> distinct (concat (getWinnerPartition srt rank ur_forms sr_forms))
    \<and> set (concat (getWinnerPartition srt rank ur_forms sr_forms)) = set ur_forms
    \<and> (\<forall>i j. i < j \<and> j < length (getWinnerPartition srt rank ur_forms sr_forms) \<longrightarrow>
          set (getWinnerPartition srt rank ur_forms sr_forms ! i)
            \<inter> set (getWinnerPartition srt rank ur_forms sr_forms ! j) = {})"
proof -
  let ?p = "getWinnerPartition srt rank ur_forms sr_forms"
  let ?w = "winnersDict rank ur_forms sr_forms"
  have k: "distinct (map fst ?w) \<and> set (map fst ?w) = set (map fst []) \<union> set ur_forms"
    using winnersDict_keys [of "[]" "\<lambda>ur. otEval rank ur sr_forms" ur_forms]
    by (simp add: winnersDict_def)
  have ne: "[] \<notin> set ?p" using assms by (rule getWinnerPartition_mset(1))
  have m: "mset (concat ?p) = mset (map fst ?w)" using assms by (rule getWinnerPartition_mset(2))
  have d: "distinct (concat ?p)"
    using k mset_eq_imp_distinct_iff [OF m] by simp
  have s: "set (concat ?p) = set ur_forms"
    using k mset_eq_setD [OF m] by simp
  have dj: "\<forall>i j. i < j \<and> j < length ?p \<longrightarrow> set (?p ! i) \<inter> set (?p ! j) = {}"
    using disjoint_cells [OF d ne] by blast
  from ne d s dj show ?thesis by blast
qed

theorem getWinnerPartition_partitions_ur_forms_witness:
  "getWinnerPartition insertionSorted [MaxNum]
      [NForm {''sg''} {''nom''} {}, NForm {} {''nom''} {}, NForm {''sg''} {''nom''} {},
       NForm {''sg''} {} {}]
      [NForm {} {} {}, NForm {''sg''} {} {}]
     = [[NForm {''sg''} {} {}, NForm {''sg''} {''nom''} {}], [NForm {} {''nom''} {}]]
   \<and> [] \<notin> set (getWinnerPartition insertionSorted [MaxNum]
      [NForm {''sg''} {''nom''} {}, NForm {} {''nom''} {}, NForm {''sg''} {''nom''} {},
       NForm {''sg''} {} {}]
      [NForm {} {} {}, NForm {''sg''} {} {}])
   \<and> distinct (concat (getWinnerPartition insertionSorted [MaxNum]
      [NForm {''sg''} {''nom''} {}, NForm {} {''nom''} {}, NForm {''sg''} {''nom''} {},
       NForm {''sg''} {} {}]
      [NForm {} {} {}, NForm {''sg''} {} {}]))
   \<and> set (concat (getWinnerPartition insertionSorted [MaxNum]
      [NForm {''sg''} {''nom''} {}, NForm {} {''nom''} {}, NForm {''sg''} {''nom''} {},
       NForm {''sg''} {} {}]
      [NForm {} {} {}, NForm {''sg''} {} {}]))
       = set [NForm {''sg''} {''nom''} {}, NForm {} {''nom''} {}, NForm {''sg''} {''nom''} {},
              NForm {''sg''} {} {}]"
proof -
  have e: "getWinnerPartition insertionSorted [MaxNum]
      [NForm {''sg''} {''nom''} {}, NForm {} {''nom''} {}, NForm {''sg''} {''nom''} {},
       NForm {''sg''} {} {}]
      [NForm {} {} {}, NForm {''sg''} {} {}]
     = [[NForm {''sg''} {} {}, NForm {''sg''} {''nom''} {}], [NForm {} {''nom''} {}]]"
    by code_simp
  have p: "\<And>xs. mset (insertionSorted xs) = mset xs"
    by (rule insertionSorted_mset)
  show ?thesis
    using e getWinnerPartition_partitions_ur_forms [of insertionSorted "[MaxNum]"
      "[NForm {''sg''} {''nom''} {}, NForm {} {''nom''} {}, NForm {''sg''} {''nom''} {},
        NForm {''sg''} {} {}]"
      "[NForm {} {} {}, NForm {''sg''} {} {}]", OF p]
    by blast
qed

section \<open>The search\<close>

lemma goodRanks_stop:
  "goodRanks srt ur_partition urs vocab True rankings
     = take 1 (map printRanking
         (filter (\<lambda>rank. areSamePartitions
                    (getWinnerPartition srt (map snd rank) urs vocab) ur_partition)
                 rankings))"
  by (induction rankings) simp_all

lemma goodRanks_all:
  "goodRanks srt ur_partition urs vocab False rankings
     = map printRanking
         (filter (\<lambda>rank. areSamePartitions
                    (getWinnerPartition srt (map snd rank) urs vocab) ur_partition)
                 rankings)"
  by (induction rankings) simp_all

lemma goodRanks_filter:
  "goodRanks srt ur_partition urs vocab stop rankings
     = (if stop then take 1 else id)
         (map printRanking
            (filter (\<lambda>rank. areSamePartitions
                       (getWinnerPartition srt (map snd rank) urs vocab) ur_partition)
                    rankings))"
  by (cases stop) (simp_all only: goodRanks_stop goodRanks_all if_True if_False id_apply)

lemma goodRanks_nonempty:
  "goodRanks srt ur_partition urs vocab stop rankings \<noteq> []
     \<longleftrightarrow> (\<exists>rank\<in>set rankings. areSamePartitions
             (getWinnerPartition srt (map snd rank) urs vocab) ur_partition)"
proof -
  have t: "take 1 xs \<noteq> [] \<longleftrightarrow> xs \<noteq> []" for xs :: "string list list"
    by (cases xs) simp_all
  show ?thesis
    unfolding goodRanks_filter by (simp add: t filter_empty_conv)
qed

lemma searchVocabs_filter:
  "searchVocabs srt ur_partition urs stop rankings vocab_list
     = map (\<lambda>vocab. (vocab, goodRanks srt ur_partition urs vocab stop rankings))
           (filter (\<lambda>vocab. goodRanks srt ur_partition urs vocab stop rankings \<noteq> [])
                   vocab_list)"
  by (induction vocab_list) (simp_all add: Let_def)

lemma constructAll_map:
  "\<forall>a\<in>set args. \<exists>f. construct ty a = Inr f \<Longrightarrow>
     \<exists>fs. constructAll ty args = Inr fs \<and> map Inr fs = map (construct ty) args"
proof (induction args)
  case Nil
  then show ?case by simp
next
  case (Cons a args)
  then obtain f where f: "construct ty a = Inr f" by auto
  from Cons obtain fs where fs: "constructAll ty args = Inr fs"
    "map Inr fs = map (construct ty) args" by auto
  have "constructAll ty (a # args) = Inr (f # fs)
          \<and> map Inr (f # fs) = map (construct ty) (a # args)"
    using f fs by simp
  then show ?case by blast
qed

lemma NForm_product_constructs:
  "list_all (\<lambda>a. case construct NFormT a of Inl e \<Rightarrow> False | Inr f \<Rightarrow> True)
     (product_lists (map snd (feature_val_dict NFormT)))"
  by code_simp

lemma VForm_product_constructs:
  "list_all (\<lambda>a. case construct VFormT a of Inl e \<Rightarrow> False | Inr f \<Rightarrow> True)
     (product_lists (map snd (feature_val_dict VFormT)))"
  by code_simp

lemma product_constructs:
  assumes "a \<in> set (product_lists (map snd (feature_val_dict ty)))"
  shows "\<exists>f. construct ty a = Inr f"
proof -
  have "list_all (\<lambda>a. case construct ty a of Inl e \<Rightarrow> False | Inr f \<Rightarrow> True)
          (product_lists (map snd (feature_val_dict ty)))"
    using NForm_product_constructs VForm_product_constructs by (cases ty) simp_all
  with assms have "case construct ty a of Inl e \<Rightarrow> False | Inr f \<Rightarrow> True"
    by (simp add: list_all_iff)
  then show ?thesis by (cases "construct ty a") simp_all
qed

lemma generateForms_returns:
  "\<exists>sforms. generateForms ty vals = Inr sforms
     \<and> map Inr sforms
         = map (construct ty)
             (filter (\<lambda>a. set a \<inter> set vals = {})
                     (product_lists (map snd (feature_val_dict ty))))"
proof -
  let ?all = "product_lists (map snd (feature_val_dict ty))"
  have args: "(if length vals = 0 then ?all
               else filter (\<lambda>a. card (set a \<inter> set vals) = 0) ?all)
              = filter (\<lambda>a. set a \<inter> set vals = {}) ?all"
    by simp
  have "\<forall>a\<in>set (filter (\<lambda>a. set a \<inter> set vals = {}) ?all). \<exists>f. construct ty a = Inr f"
    using product_constructs by simp
  from constructAll_map [OF this] show ?thesis
    unfolding generateForms_def Let_def args .
qed

lemma subseqs_length_zero: "filter (\<lambda>ys. length ys = 0) (subseqs xs) = [[]]"
  by (induction xs) (simp_all add: Let_def filter_empty_conv)

lemma filter_length_map_Cons:
  "filter (\<lambda>ys. length ys = Suc k) (map (Cons x) xss)
     = map (Cons x) (filter (\<lambda>ys. length ys = k) xss)"
  by (induction xss) simp_all

text \<open>The combinations are the sublists of the given length, in the order in which
  \<open>subseqs\<close> lists them.\<close>

lemma combinations_subseqs:
  "combinations xs k = filter (\<lambda>ys. length ys = k) (subseqs xs)"
proof (induction xs k rule: combinations.induct)
  case (1 xs)
  show ?case using subseqs_length_zero [of xs] by simp
next
  case (2 k)
  show ?case by simp
next
  case (3 x xs k)
  then show ?case by (simp add: Let_def filter_length_map_Cons)
qed

lemma NForm_product_distinct:
  "distinct (map (construct NFormT) (product_lists (map snd (feature_val_dict NFormT))))"
  by code_simp

lemma VForm_product_distinct:
  "distinct (map (construct VFormT) (product_lists (map snd (feature_val_dict VFormT))))"
  by code_simp

lemma product_distinct:
  "distinct (map (construct ty) (product_lists (map snd (feature_val_dict ty))))"
  using NForm_product_distinct VForm_product_distinct by (cases ty) simp_all

lemma generateForms_distinct:
  assumes "map Inr sforms
         = map (construct ty)
             (filter P (product_lists (map snd (feature_val_dict ty))))"
  shows "distinct sforms"
proof -
  have "distinct (map (construct ty)
          (filter P (product_lists (map snd (feature_val_dict ty)))))"
    using product_distinct by (rule distinct_map_filter)
  then have "distinct (map (Inr :: form \<Rightarrow> error + form) sforms)"
    by (simp only: assms)
  then show ?thesis by (simp add: distinct_map)
qed

lemma combinations_distinct_sets:
  assumes "distinct xs"
  shows "distinct (map set (filter (\<lambda>ys. length ys = k) (subseqs xs)))"
  using distinct_set_subseqs [OF assms] by (rule distinct_map_filter)

text \<open>
  C9: the search never fails.  The generated forms are the product of the value lists
  without the tuples that use an excluded value, each built into a form, and no form is
  generated twice.  The vocabularies tried are the sublists of the generated forms that
  have as many forms as the target partition has cells; no two of them hold the same
  forms.  The result has one entry for each of them for which some ranking gives a
  winner partition that \<open>areSamePartitions\<close> accepts against the target, in the order of
  the sublists.  The entry pairs the vocabulary with the names of all such rankings, or
  of the first one when \<open>stop\<close> is set.  When no vocabulary succeeds the result is the
  empty list.
\<close>

theorem findVocabularyRankingPairs_entries:
  "\<exists>sforms.
      generateForms ty excl = Inr sforms
    \<and> map Inr sforms
        = map (construct ty)
            (filter (\<lambda>a. set a \<inter> set excl = {})
                    (product_lists (map snd (feature_val_dict ty))))
    \<and> distinct sforms
    \<and> distinct (map set (filter (\<lambda>vocab. length vocab = length part) (subseqs sforms)))
    \<and> findVocabularyRankingPairs srt ty part rankings excl stop
        = Inr (map (\<lambda>vocab.
                      (vocab,
                       (if stop then take 1 else id)
                         (map printRanking
                            (filter (\<lambda>rank. areSamePartitions
                                       (getWinnerPartition srt (map snd rank) (concat part) vocab)
                                       part)
                                    rankings))))
                   (filter (\<lambda>vocab. \<exists>rank\<in>set rankings. areSamePartitions
                              (getWinnerPartition srt (map snd rank) (concat part) vocab) part)
                           (filter (\<lambda>vocab. length vocab = length part) (subseqs sforms))))
    \<and> ((\<forall>vocab\<in>set (filter (\<lambda>vocab. length vocab = length part) (subseqs sforms)).
          \<forall>rank\<in>set rankings.
           \<not> areSamePartitions
               (getWinnerPartition srt (map snd rank) (concat part) vocab) part)
        \<longrightarrow> findVocabularyRankingPairs srt ty part rankings excl stop = Inr [])"
proof -
  from generateForms_returns [of ty excl] obtain sforms where
    g: "generateForms ty excl = Inr sforms"
    and u: "map Inr sforms
        = map (construct ty)
            (filter (\<lambda>a. set a \<inter> set excl = {})
                    (product_lists (map snd (feature_val_dict ty))))"
    by blast
  let ?ok = "\<lambda>vocab rank. areSamePartitions
               (getWinnerPartition srt (map snd rank) (concat part) vocab) part"
  let ?vocabs = "filter (\<lambda>vocab. length vocab = length part) (subseqs sforms)"
  have d: "distinct sforms"
    using u by (rule generateForms_distinct)
  have ds: "distinct (map set ?vocabs)"
    using d by (rule combinations_distinct_sets)
  have r: "findVocabularyRankingPairs srt ty part rankings excl stop
        = Inr (map (\<lambda>vocab.
                      (vocab,
                       (if stop then take 1 else id)
                         (map printRanking (filter (?ok vocab) rankings))))
                   (filter (\<lambda>vocab. \<exists>rank\<in>set rankings. ?ok vocab rank) ?vocabs))"
    unfolding findVocabularyRankingPairs_def g searchVocabs_filter goodRanks_nonempty
      combinations_subseqs
    unfolding goodRanks_filter by simp
  have e: "findVocabularyRankingPairs srt ty part rankings excl stop = Inr []"
    if "\<forall>vocab\<in>set ?vocabs. \<forall>rank\<in>set rankings. \<not> ?ok vocab rank"
  proof -
    have "filter (\<lambda>vocab. \<exists>rank\<in>set rankings. ?ok vocab rank) ?vocabs = []"
      using that by (simp add: filter_empty_conv)
    then show ?thesis unfolding r by simp
  qed
  from g u d ds r e show ?thesis by blast
qed

theorem findVocabularyRankingPairs_entries_witness:
  "generateForms VFormT [''auth'', ''addr'']
       = Inr [VForm {} {}, VForm {''pl''} {}, VForm {} {''part''}, VForm {''pl''} {''part''}]
   \<and> filter (\<lambda>vocab. length vocab = length [[VForm {} {}, VForm {} {''part''}], [VForm {''pl''} {}, VForm {''pl''} {''part''}]])
        (subseqs [VForm {} {}, VForm {''pl''} {}, VForm {} {''part''}, VForm {''pl''} {''part''}])
       = [[VForm {} {}, VForm {''pl''} {}], [VForm {} {}, VForm {} {''part''}],
           [VForm {} {}, VForm {''pl''} {''part''}], [VForm {''pl''} {}, VForm {} {''part''}],
           [VForm {''pl''} {}, VForm {''pl''} {''part''}],
           [VForm {} {''part''}, VForm {''pl''} {''part''}]]
   \<and> findVocabularyRankingPairs insertionSorted VFormT
        [[VForm {} {}, VForm {} {''part''}], [VForm {''pl''} {}, VForm {''pl''} {''part''}]]
        [[(''DepPers'', DepPers)], [(''MaxNum'', MaxNum)], [(''DepNum'', DepNum)],
         [(''MaxPers'', MaxPers)]]
        [''auth'', ''addr''] False
       = Inr [([VForm {} {}, VForm {''pl''} {}], [[''MaxNum''], [''DepNum'']]),
              ([VForm {} {}, VForm {''pl''} {''part''}], [[''MaxNum''], [''DepNum'']]),
              ([VForm {''pl''} {}, VForm {} {''part''}], [[''MaxNum''], [''DepNum'']]),
              ([VForm {} {''part''}, VForm {''pl''} {''part''}], [[''MaxNum''], [''DepNum'']])]
   \<and> findVocabularyRankingPairs insertionSorted VFormT
        [[VForm {} {}, VForm {} {''part''}], [VForm {''pl''} {}, VForm {''pl''} {''part''}]]
        [[(''DepPers'', DepPers)], [(''MaxNum'', MaxNum)], [(''DepNum'', DepNum)],
         [(''MaxPers'', MaxPers)]]
        [''auth'', ''addr''] True
       = Inr [([VForm {} {}, VForm {''pl''} {}], [[''MaxNum'']]),
              ([VForm {} {}, VForm {''pl''} {''part''}], [[''MaxNum'']]),
              ([VForm {''pl''} {}, VForm {} {''part''}], [[''MaxNum'']]),
              ([VForm {} {''part''}, VForm {''pl''} {''part''}], [[''MaxNum'']])]
   \<and> findVocabularyRankingPairs insertionSorted VFormT
        [[VForm {} {}, VForm {} {''part''}], [VForm {''pl''} {}, VForm {''pl''} {''part''}]]
        [[(''DepPers'', DepPers)]]
        [''auth'', ''addr''] False
       = Inr []"
proof -
  have g: "generateForms VFormT [''auth'', ''addr'']
       = Inr [VForm {} {}, VForm {''pl''} {}, VForm {} {''part''}, VForm {''pl''} {''part''}]"
    by code_simp
  have six: "filter (\<lambda>vocab. length vocab = length [[VForm {} {}, VForm {} {''part''}], [VForm {''pl''} {}, VForm {''pl''} {''part''}]])
        (subseqs [VForm {} {}, VForm {''pl''} {}, VForm {} {''part''}, VForm {''pl''} {''part''}])
       = [[VForm {} {}, VForm {''pl''} {}], [VForm {} {}, VForm {} {''part''}],
           [VForm {} {}, VForm {''pl''} {''part''}], [VForm {''pl''} {}, VForm {} {''part''}],
           [VForm {''pl''} {}, VForm {''pl''} {''part''}],
           [VForm {} {''part''}, VForm {''pl''} {''part''}]]"
    by code_simp
  have all_ranks: "findVocabularyRankingPairs insertionSorted VFormT
        [[VForm {} {}, VForm {} {''part''}], [VForm {''pl''} {}, VForm {''pl''} {''part''}]]
        [[(''DepPers'', DepPers)], [(''MaxNum'', MaxNum)], [(''DepNum'', DepNum)],
         [(''MaxPers'', MaxPers)]]
        [''auth'', ''addr''] False
       = Inr [([VForm {} {}, VForm {''pl''} {}], [[''MaxNum''], [''DepNum'']]),
              ([VForm {} {}, VForm {''pl''} {''part''}], [[''MaxNum''], [''DepNum'']]),
              ([VForm {''pl''} {}, VForm {} {''part''}], [[''MaxNum''], [''DepNum'']]),
              ([VForm {} {''part''}, VForm {''pl''} {''part''}], [[''MaxNum''], [''DepNum'']])]"
  proof -
    from findVocabularyRankingPairs_entries [where ty = VFormT and excl = "[''auth'', ''addr'']"
      and srt = insertionSorted and part = "[[VForm {} {}, VForm {} {''part''}], [VForm {''pl''} {}, VForm {''pl''} {''part''}]]"
      and rankings = "[[(''DepPers'', DepPers)], [(''MaxNum'', MaxNum)], [(''DepNum'', DepNum)],
         [(''MaxPers'', MaxPers)]]" and stop = False]
    obtain sforms where s: "generateForms VFormT [''auth'', ''addr''] = Inr sforms"
      and r: "findVocabularyRankingPairs insertionSorted VFormT
        [[VForm {} {}, VForm {} {''part''}], [VForm {''pl''} {}, VForm {''pl''} {''part''}]]
        [[(''DepPers'', DepPers)], [(''MaxNum'', MaxNum)], [(''DepNum'', DepNum)],
         [(''MaxPers'', MaxPers)]]
        [''auth'', ''addr''] False
       = Inr (map (\<lambda>vocab.
                      (vocab,
                       (if False then take 1 else id)
                         (map printRanking
                            (filter (\<lambda>rank. areSamePartitions
                                       (getWinnerPartition insertionSorted (map snd rank)
                                          (concat [[VForm {} {}, VForm {} {''part''}], [VForm {''pl''} {}, VForm {''pl''} {''part''}]]) vocab)
                                       [[VForm {} {}, VForm {} {''part''}], [VForm {''pl''} {}, VForm {''pl''} {''part''}]])
                                    [[(''DepPers'', DepPers)], [(''MaxNum'', MaxNum)], [(''DepNum'', DepNum)],
         [(''MaxPers'', MaxPers)]]))))
                   (filter (\<lambda>vocab. \<exists>rank\<in>set [[(''DepPers'', DepPers)], [(''MaxNum'', MaxNum)], [(''DepNum'', DepNum)],
         [(''MaxPers'', MaxPers)]].
                              areSamePartitions
                                (getWinnerPartition insertionSorted (map snd rank)
                                   (concat [[VForm {} {}, VForm {} {''part''}], [VForm {''pl''} {}, VForm {''pl''} {''part''}]]) vocab)
                                [[VForm {} {}, VForm {} {''part''}], [VForm {''pl''} {}, VForm {''pl''} {''part''}]])
                           (filter (\<lambda>vocab. length vocab = length [[VForm {} {}, VForm {} {''part''}], [VForm {''pl''} {}, VForm {''pl''} {''part''}]])
                                   (subseqs sforms))))"
      by blast
    from s g have u: "sforms = [VForm {} {}, VForm {''pl''} {}, VForm {} {''part''}, VForm {''pl''} {''part''}]" by simp
    have "map (\<lambda>vocab.
                      (vocab,
                       (if False then take 1 else id)
                         (map printRanking
                            (filter (\<lambda>rank. areSamePartitions
                                       (getWinnerPartition insertionSorted (map snd rank)
                                          (concat [[VForm {} {}, VForm {} {''part''}], [VForm {''pl''} {}, VForm {''pl''} {''part''}]]) vocab)
                                       [[VForm {} {}, VForm {} {''part''}], [VForm {''pl''} {}, VForm {''pl''} {''part''}]])
                                    [[(''DepPers'', DepPers)], [(''MaxNum'', MaxNum)], [(''DepNum'', DepNum)],
         [(''MaxPers'', MaxPers)]]))))
                   (filter (\<lambda>vocab. \<exists>rank\<in>set [[(''DepPers'', DepPers)], [(''MaxNum'', MaxNum)], [(''DepNum'', DepNum)],
         [(''MaxPers'', MaxPers)]].
                              areSamePartitions
                                (getWinnerPartition insertionSorted (map snd rank)
                                   (concat [[VForm {} {}, VForm {} {''part''}], [VForm {''pl''} {}, VForm {''pl''} {''part''}]]) vocab)
                                [[VForm {} {}, VForm {} {''part''}], [VForm {''pl''} {}, VForm {''pl''} {''part''}]])
                           (filter (\<lambda>vocab. length vocab = length [[VForm {} {}, VForm {} {''part''}], [VForm {''pl''} {}, VForm {''pl''} {''part''}]])
                                   (subseqs [VForm {} {}, VForm {''pl''} {}, VForm {} {''part''}, VForm {''pl''} {''part''}])))
       = [([VForm {} {}, VForm {''pl''} {}], [[''MaxNum''], [''DepNum'']]),
              ([VForm {} {}, VForm {''pl''} {''part''}], [[''MaxNum''], [''DepNum'']]),
              ([VForm {''pl''} {}, VForm {} {''part''}], [[''MaxNum''], [''DepNum'']]),
              ([VForm {} {''part''}, VForm {''pl''} {''part''}], [[''MaxNum''], [''DepNum'']])]"
      by code_simp
    then show ?thesis using r unfolding u by simp
  qed
  have first_rank: "findVocabularyRankingPairs insertionSorted VFormT
        [[VForm {} {}, VForm {} {''part''}], [VForm {''pl''} {}, VForm {''pl''} {''part''}]]
        [[(''DepPers'', DepPers)], [(''MaxNum'', MaxNum)], [(''DepNum'', DepNum)],
         [(''MaxPers'', MaxPers)]]
        [''auth'', ''addr''] True
       = Inr [([VForm {} {}, VForm {''pl''} {}], [[''MaxNum'']]),
              ([VForm {} {}, VForm {''pl''} {''part''}], [[''MaxNum'']]),
              ([VForm {''pl''} {}, VForm {} {''part''}], [[''MaxNum'']]),
              ([VForm {} {''part''}, VForm {''pl''} {''part''}], [[''MaxNum'']])]"
  proof -
    from findVocabularyRankingPairs_entries [where ty = VFormT and excl = "[''auth'', ''addr'']"
      and srt = insertionSorted and part = "[[VForm {} {}, VForm {} {''part''}], [VForm {''pl''} {}, VForm {''pl''} {''part''}]]"
      and rankings = "[[(''DepPers'', DepPers)], [(''MaxNum'', MaxNum)], [(''DepNum'', DepNum)],
         [(''MaxPers'', MaxPers)]]" and stop = True]
    obtain sforms where s: "generateForms VFormT [''auth'', ''addr''] = Inr sforms"
      and r: "findVocabularyRankingPairs insertionSorted VFormT
        [[VForm {} {}, VForm {} {''part''}], [VForm {''pl''} {}, VForm {''pl''} {''part''}]]
        [[(''DepPers'', DepPers)], [(''MaxNum'', MaxNum)], [(''DepNum'', DepNum)],
         [(''MaxPers'', MaxPers)]]
        [''auth'', ''addr''] True
       = Inr (map (\<lambda>vocab.
                      (vocab,
                       (if True then take 1 else id)
                         (map printRanking
                            (filter (\<lambda>rank. areSamePartitions
                                       (getWinnerPartition insertionSorted (map snd rank)
                                          (concat [[VForm {} {}, VForm {} {''part''}], [VForm {''pl''} {}, VForm {''pl''} {''part''}]]) vocab)
                                       [[VForm {} {}, VForm {} {''part''}], [VForm {''pl''} {}, VForm {''pl''} {''part''}]])
                                    [[(''DepPers'', DepPers)], [(''MaxNum'', MaxNum)], [(''DepNum'', DepNum)],
         [(''MaxPers'', MaxPers)]]))))
                   (filter (\<lambda>vocab. \<exists>rank\<in>set [[(''DepPers'', DepPers)], [(''MaxNum'', MaxNum)], [(''DepNum'', DepNum)],
         [(''MaxPers'', MaxPers)]].
                              areSamePartitions
                                (getWinnerPartition insertionSorted (map snd rank)
                                   (concat [[VForm {} {}, VForm {} {''part''}], [VForm {''pl''} {}, VForm {''pl''} {''part''}]]) vocab)
                                [[VForm {} {}, VForm {} {''part''}], [VForm {''pl''} {}, VForm {''pl''} {''part''}]])
                           (filter (\<lambda>vocab. length vocab = length [[VForm {} {}, VForm {} {''part''}], [VForm {''pl''} {}, VForm {''pl''} {''part''}]])
                                   (subseqs sforms))))"
      by blast
    from s g have u: "sforms = [VForm {} {}, VForm {''pl''} {}, VForm {} {''part''}, VForm {''pl''} {''part''}]" by simp
    have "map (\<lambda>vocab.
                      (vocab,
                       (if True then take 1 else id)
                         (map printRanking
                            (filter (\<lambda>rank. areSamePartitions
                                       (getWinnerPartition insertionSorted (map snd rank)
                                          (concat [[VForm {} {}, VForm {} {''part''}], [VForm {''pl''} {}, VForm {''pl''} {''part''}]]) vocab)
                                       [[VForm {} {}, VForm {} {''part''}], [VForm {''pl''} {}, VForm {''pl''} {''part''}]])
                                    [[(''DepPers'', DepPers)], [(''MaxNum'', MaxNum)], [(''DepNum'', DepNum)],
         [(''MaxPers'', MaxPers)]]))))
                   (filter (\<lambda>vocab. \<exists>rank\<in>set [[(''DepPers'', DepPers)], [(''MaxNum'', MaxNum)], [(''DepNum'', DepNum)],
         [(''MaxPers'', MaxPers)]].
                              areSamePartitions
                                (getWinnerPartition insertionSorted (map snd rank)
                                   (concat [[VForm {} {}, VForm {} {''part''}], [VForm {''pl''} {}, VForm {''pl''} {''part''}]]) vocab)
                                [[VForm {} {}, VForm {} {''part''}], [VForm {''pl''} {}, VForm {''pl''} {''part''}]])
                           (filter (\<lambda>vocab. length vocab = length [[VForm {} {}, VForm {} {''part''}], [VForm {''pl''} {}, VForm {''pl''} {''part''}]])
                                   (subseqs [VForm {} {}, VForm {''pl''} {}, VForm {} {''part''}, VForm {''pl''} {''part''}])))
       = [([VForm {} {}, VForm {''pl''} {}], [[''MaxNum'']]),
              ([VForm {} {}, VForm {''pl''} {''part''}], [[''MaxNum'']]),
              ([VForm {''pl''} {}, VForm {} {''part''}], [[''MaxNum'']]),
              ([VForm {} {''part''}, VForm {''pl''} {''part''}], [[''MaxNum'']])]"
      by code_simp
    then show ?thesis using r unfolding u by simp
  qed
  have none: "findVocabularyRankingPairs insertionSorted VFormT
        [[VForm {} {}, VForm {} {''part''}], [VForm {''pl''} {}, VForm {''pl''} {''part''}]]
        [[(''DepPers'', DepPers)]]
        [''auth'', ''addr''] False
       = Inr []"
  proof -
    have no: "\<forall>vocab\<in>set (filter (\<lambda>vocab. length vocab = length [[VForm {} {}, VForm {} {''part''}], [VForm {''pl''} {}, VForm {''pl''} {''part''}]])
                          (subseqs [VForm {} {}, VForm {''pl''} {}, VForm {} {''part''}, VForm {''pl''} {''part''}])).
      \<forall>rank\<in>set [[(''DepPers'', DepPers)]].
        \<not> areSamePartitions
            (getWinnerPartition insertionSorted (map snd rank) (concat [[VForm {} {}, VForm {} {''part''}], [VForm {''pl''} {}, VForm {''pl''} {''part''}]]) vocab)
            [[VForm {} {}, VForm {} {''part''}], [VForm {''pl''} {}, VForm {''pl''} {''part''}]]"
      by code_simp
    from findVocabularyRankingPairs_entries [where ty = VFormT and excl = "[''auth'', ''addr'']"
      and srt = insertionSorted and part = "[[VForm {} {}, VForm {} {''part''}], [VForm {''pl''} {}, VForm {''pl''} {''part''}]]"
      and rankings = "[[(''DepPers'', DepPers)]]" and stop = False]
    obtain sforms where s: "generateForms VFormT [''auth'', ''addr''] = Inr sforms"
      and imp: "(\<forall>vocab\<in>set (filter (\<lambda>vocab. length vocab = length [[VForm {} {}, VForm {} {''part''}], [VForm {''pl''} {}, VForm {''pl''} {''part''}]])
                          (subseqs sforms)).
      \<forall>rank\<in>set [[(''DepPers'', DepPers)]].
        \<not> areSamePartitions
            (getWinnerPartition insertionSorted (map snd rank) (concat [[VForm {} {}, VForm {} {''part''}], [VForm {''pl''} {}, VForm {''pl''} {''part''}]]) vocab)
            [[VForm {} {}, VForm {} {''part''}], [VForm {''pl''} {}, VForm {''pl''} {''part''}]])
      \<longrightarrow> findVocabularyRankingPairs insertionSorted VFormT
        [[VForm {} {}, VForm {} {''part''}], [VForm {''pl''} {}, VForm {''pl''} {''part''}]]
        [[(''DepPers'', DepPers)]]
        [''auth'', ''addr''] False
       = Inr []"
      by blast
    from s g have "sforms = [VForm {} {}, VForm {''pl''} {}, VForm {} {''part''}, VForm {''pl''} {''part''}]" by simp
    with imp no show ?thesis by blast
  qed
  from g six all_ranks first_rank none show ?thesis by blast
qed

end
